theory Spec2Isabelle
  imports Complex_Main
begin

section \<open>Data model\<close>

text \<open>
  The Python sources compute with floats (IEEE doubles); the embedding computes with
  exact reals. What Python raises is a value of \<open>py_error\<close>: a float division by zero
  (and \<open>0.0 ** n\<close> for negative \<open>n\<close>) raises ZeroDivisionError, a power \<open>x ** n\<close> whose
  value is beyond the largest double raises OverflowError, a missing database row raises
  ValueError.

  Rounding is not modelled, with one exception in \<open>loan_schedule\<close>, where it decides
  whether the payment formula divides by zero. Elsewhere a value the program rounds is
  exact here, so the two can part where an exception hangs on the last bit: a Newton
  step of \<open>irr\<close> that lands on the rate \<open>-1\<close> in one arithmetic can land beside it in the
  other, and a power that underflows to \<open>0.0\<close> is not zero here. General statements are
  therefore made under the hypothesis that the computations they speak of return, and
  the concrete inputs are such that the values deciding an exception are exact in
  doubles as well.
\<close>

datatype py_error = ZeroDivisionError | OverflowError | ValueError

text \<open>A row of table \<open>projects\<close> (db/create_db.py), the columns the model reads.\<close>

record project =
  capacity_mw :: real
  capex :: real
  opex_annual :: real
  ppa_price :: real
  degradation_pct :: real
  cf_year1 :: real

text \<open>A row of table \<open>financing\<close>.\<close>

record financing =
  tax_credit_pct :: real
  debt_pct :: real
  interest_rate :: real
  term_years :: int

text \<open>The section \<open>model\<close> of config/settings.yaml, as read by the callers.\<close>

record config =
  cfg_discount_rate :: real
  cfg_tax_rate :: real
  cfg_project_life_years :: int
  cfg_opex_escalation :: real

text \<open>One dict of the list returned by \<open>loan_schedule\<close>.\<close>

record loan_entry =
  le_year :: int
  le_payment :: real
  le_interest :: real
  le_principal :: real
  le_balance :: real

text \<open>The dict returned by \<open>compute_project_finance\<close>.\<close>

record proforma =
  pf_irr :: real
  pf_npv :: real
  pf_payback_year :: "nat option"
  pf_min_dscr :: "real option"

text \<open>One dict appended to \<open>results\<close> in \<open>run_sensitivity\<close>.\<close>

record sens_row =
  row_ppa_mult :: real
  row_capex_mult :: real
  row_debt_pct :: real
  row_irr :: real
  row_npv :: real
  row_payback_year :: "nat option"
  row_min_dscr :: "real option"

section \<open>Arithmetic that can raise\<close>

definition py_div :: "real \<Rightarrow> real \<Rightarrow> py_error + real" where
  "py_div a b = (if b = 0 then Inl ZeroDivisionError else Inr (a / b))"

text \<open>The largest double, \<open>(2 - 2^-52) * 2^1023\<close>.\<close>

definition float_max :: real where
  "float_max = (2 ^ 53 - 1) * 2 ^ 971"

text \<open>
  \<open>x ** n\<close> for a float \<open>x\<close> and an int \<open>n\<close>: zero to a negative power raises
  ZeroDivisionError, a value beyond the largest double raises OverflowError.
\<close>

definition py_pow :: "real \<Rightarrow> int \<Rightarrow> py_error + real" where
  "py_pow x n =
     (if x = 0 \<and> n < 0 then Inl ZeroDivisionError
      else (let v = (if 0 \<le> n then x ^ nat n else 1 / x ^ nat (- n))
            in if float_max < \<bar>v\<bar> then Inl OverflowError else Inr v))"

text \<open>
  A \<open>for\<close> loop whose body updates a state and may raise: the first exception leaves
  the loop, and the state built so far is lost with it.
\<close>

fun for_each :: "('a \<Rightarrow> 's \<Rightarrow> py_error + 's) \<Rightarrow> 'a list \<Rightarrow> 's \<Rightarrow> py_error + 's" where
  "for_each body [] s = Inr s"
| "for_each body (x # xs) s =
     (case body x s of Inl e \<Rightarrow> Inl e | Inr s' \<Rightarrow> for_each body xs s')"

section \<open>src/model.py\<close>

subsection \<open>npv and irr\<close>

text \<open>
  \<open>sum(cf / ((1 + rate) ** t) for t, cf in enumerate(cashflows))\<close>, the terms taken from
  index \<open>t\<close> on: each term is a power, then a division, and the first one to raise ends
  the sum.
\<close>

fun npv_from :: "real \<Rightarrow> nat \<Rightarrow> real list \<Rightarrow> py_error + real" where
  "npv_from rate t [] = Inr 0"
| "npv_from rate t (cf # cfs) =
     (case py_pow (1 + rate) (int t) of
        Inl e \<Rightarrow> Inl e
      | Inr p \<Rightarrow>
          (case py_div cf p of
             Inl e \<Rightarrow> Inl e
           | Inr x \<Rightarrow> (case npv_from rate (Suc t) cfs of
                        Inl e \<Rightarrow> Inl e
                      | Inr s \<Rightarrow> Inr (x + s))))"

definition npv :: "real \<Rightarrow> real list \<Rightarrow> py_error + real" where
  "npv rate cashflows = npv_from rate 0 cashflows"

text \<open>\<open>sum(-t * cf / ((1 + r) ** (t + 1)) for t, cf in enumerate(cashflows))\<close>.\<close>

fun d_npv_from :: "real \<Rightarrow> nat \<Rightarrow> real list \<Rightarrow> py_error + real" where
  "d_npv_from r t [] = Inr 0"
| "d_npv_from r t (cf # cfs) =
     (case py_pow (1 + r) (int t + 1) of
        Inl e \<Rightarrow> Inl e
      | Inr p \<Rightarrow>
          (case py_div (- real t * cf) p of
             Inl e \<Rightarrow> Inl e
           | Inr x \<Rightarrow> (case d_npv_from r (Suc t) cfs of
                        Inl e \<Rightarrow> Inl e
                      | Inr s \<Rightarrow> Inr (x + s))))"

text \<open>
  \<open>math.isclose(d, 0.0, abs_tol=1e-12)\<close> is
  \<open>abs(d - 0.0) <= max(1e-09 * max(abs(d), abs(0.0)), 1e-12)\<close>.
\<close>

definition isclose0 :: "real \<Rightarrow> bool" where
  "isclose0 d \<longleftrightarrow> \<bar>d - 0\<bar> \<le> max (1 / 10 ^ 9 * max \<bar>d\<bar> \<bar>0\<bar>) (1 / 10 ^ 12)"

text \<open>
  The \<open>for _ in range(maxiter)\<close> loop of \<open>irr\<close> with \<open>n\<close> iterations left: \<open>break\<close>
  and the end of the range both reach \<open>return r\<close>.
\<close>

fun irr_loop :: "real list \<Rightarrow> real \<Rightarrow> nat \<Rightarrow> real \<Rightarrow> py_error + real" where
  "irr_loop cashflows tol 0 r = Inr r"
| "irr_loop cashflows tol (Suc n) r =
     (case npv_from r 0 cashflows of
        Inl e \<Rightarrow> Inl e
      | Inr npv_val \<Rightarrow>
          (case d_npv_from r 0 cashflows of
             Inl e \<Rightarrow> Inl e
           | Inr d_npv \<Rightarrow>
               if isclose0 d_npv then Inr r
               else (case py_div npv_val d_npv of
                       Inl e \<Rightarrow> Inl e
                     | Inr q \<Rightarrow>
                         (let new_r = r - q
                          in if \<bar>new_r - r\<bar> < tol then Inr new_r
                             else irr_loop cashflows tol n new_r))))"

text \<open>\<open>irr(cashflows, guess, tol=1e-6, maxiter=200)\<close>.\<close>

definition irr_with :: "real list \<Rightarrow> real \<Rightarrow> real \<Rightarrow> nat \<Rightarrow> py_error + real" where
  "irr_with cashflows guess tol maxiter = irr_loop cashflows tol maxiter guess"

definition irr :: "real list \<Rightarrow> py_error + real" where
  "irr cashflows = irr_with cashflows (8 / 100) (1 / 10 ^ 6) 200"

subsection \<open>loan_schedule\<close>

text \<open>
  The body of \<open>for year in range(1, term_years + 1)\<close>, threading \<open>balance\<close>. The
  parameter \<open>principal\<close> of the source is written \<open>amount\<close>, the former being a
  constant of the library.
\<close>

fun loan_rows :: "real \<Rightarrow> real \<Rightarrow> real \<Rightarrow> int list \<Rightarrow> loan_entry list" where
  "loan_rows payment rate balance [] = []"
| "loan_rows payment rate balance (year # years) =
     (let interest = balance * rate;
          principal_paid = payment - interest;
          balance' = max (balance - principal_paid) 0
      in \<lparr>le_year = year, le_payment = payment, le_interest = interest,
           le_principal = principal_paid, le_balance = balance'\<rparr>
         # loan_rows payment rate balance' years)"

text \<open>
  \<open>1 + rate\<close> as the payment formula gets it. In doubles the sum is \<open>1.0\<close> for every rate
  within half a unit in the last place of 1, from \<open>-2^-54\<close> to \<open>2^-53\<close> (a tie goes to
  \<open>1.0\<close>, whose last bit is even), not only for the rate zero; the power is then \<open>1.0\<close>
  and the annuity factor divides by zero.
\<close>

definition one_plus_rate :: "real \<Rightarrow> real" where
  "one_plus_rate rate =
     (if - (1 / 2 ^ 54) \<le> rate \<and> rate \<le> 1 / 2 ^ 53 then 1 else 1 + rate)"

definition loan_schedule :: "real \<Rightarrow> real \<Rightarrow> int \<Rightarrow> py_error + loan_entry list" where
  "loan_schedule amount rate term =
     (if rate \<noteq> 0 then
        (case py_pow (one_plus_rate rate) term of
           Inl e \<Rightarrow> Inl e
         | Inr pw \<Rightarrow>
             (case py_div (rate * pw) (pw - 1) of
                Inl e \<Rightarrow> Inl e
              | Inr annuity_factor \<Rightarrow>
                  Inr (loan_rows (amount * annuity_factor) rate amount [1..term])))
      else
        (case py_div amount (of_int term) of
           Inl e \<Rightarrow> Inl e
         | Inr payment \<Rightarrow> Inr (loan_rows payment rate amount [1..term])))"

subsection \<open>compute_project_finance\<close>

text \<open>
  One pass of \<open>for year in range(1, years + 1)\<close> appends one value to each of
  \<open>revenues\<close>, \<open>opex_list\<close>, \<open>debt_service\<close> and \<open>cashflows\<close>; no pass reads what
  an earlier one wrote, so each list is a map over the years. Inside the loop
  \<open>1 \<le> year \<le> years\<close>, so the exponent \<open>year - 1\<close> is not negative, \<open>loan[year - 1]\<close> is
  in range when \<open>year <= len(loan)\<close>, and the divisor of \<open>capex / years\<close> is not zero.

  What a pass can raise is the OverflowError of its two powers,
  \<open>(1 - degradation) ** (year - 1)\<close> and \<open>(1 + opex_escalation) ** (year - 1)\<close>, in this
  order. The first pass that raises ends the function before any list is used, so the
  raising is a loop of its own, \<open>year_loop\<close>, and the lists are built from the values.
\<close>

definition year_powers :: "project \<Rightarrow> real \<Rightarrow> int \<Rightarrow> py_error + unit" where
  "year_powers proj opex_escalation year =
     (case py_pow (1 - degradation_pct proj) (year - 1) of
        Inl e \<Rightarrow> Inl e
      | Inr p \<Rightarrow> (case py_pow (1 + opex_escalation) (year - 1) of
                   Inl e \<Rightarrow> Inl e
                 | Inr p' \<Rightarrow> Inr ()))"

definition year_loop :: "project \<Rightarrow> real \<Rightarrow> int \<Rightarrow> py_error + unit" where
  "year_loop proj opex_escalation years =
     for_each (\<lambda>year u. year_powers proj opex_escalation year) [1..years] ()"

definition revenue_at :: "project \<Rightarrow> int \<Rightarrow> real" where
  "revenue_at proj year =
     (let energy_mwh_year1 = capacity_mw proj * cf_year1 proj * 8760;
          production_mwh = energy_mwh_year1 * (1 - degradation_pct proj) ^ nat (year - 1)
      in production_mwh * 1000 * ppa_price proj)"

definition opex_at :: "project \<Rightarrow> real \<Rightarrow> int \<Rightarrow> real" where
  "opex_at proj opex_escalation year =
     opex_annual proj * (1 + opex_escalation) ^ nat (year - 1)"

definition debt_service_at :: "loan_entry list \<Rightarrow> int \<Rightarrow> real" where
  "debt_service_at loan year =
     (if year \<le> int (length loan) then le_payment (loan ! nat (year - 1)) else 0)"

definition after_tax_cf_at ::
  "project \<Rightarrow> loan_entry list \<Rightarrow> real \<Rightarrow> int \<Rightarrow> real \<Rightarrow> int \<Rightarrow> real" where
  "after_tax_cf_at proj loan tax_rate years opex_escalation year =
     (let revenue = revenue_at proj year;
          opex_y = opex_at proj opex_escalation year;
          ds = debt_service_at loan year;
          depreciation = capex proj / of_int years;
          taxable_income = revenue - opex_y - depreciation - ds;
          tax = max (taxable_income * tax_rate) 0
      in revenue - opex_y - ds - tax + depreciation)"

text \<open>
  The payback loop: \<open>for idx, cf in enumerate(series[1:], start=1)\<close>, with
  \<open>cumulative\<close> and \<open>idx\<close> threaded; falling off the end leaves \<open>payback_year = None\<close>.
\<close>

fun payback_loop :: "real \<Rightarrow> nat \<Rightarrow> real list \<Rightarrow> nat option" where
  "payback_loop cumulative idx [] = None"
| "payback_loop cumulative idx (cf # cfs) =
     (let cumulative' = cumulative + cf
      in if cumulative' > 0 then Some idx else payback_loop cumulative' (Suc idx) cfs)"

text \<open>
  The DSCR loop: \<open>for i, ds in enumerate(debt_service)\<close>, from index \<open>i\<close> on. The three
  lists have the same length, so \<open>revenues[i]\<close> and \<open>opex_list[i]\<close> are in range.
\<close>

fun dscr_from :: "real list \<Rightarrow> real list \<Rightarrow> nat \<Rightarrow> real list \<Rightarrow> py_error + real list" where
  "dscr_from revenues opex_list i [] = Inr []"
| "dscr_from revenues opex_list i (ds # rest) =
     (if ds \<le> 0 then dscr_from revenues opex_list (Suc i) rest
      else (let ebitda = revenues ! i - opex_list ! i
            in case py_div ebitda ds of
                 Inl e \<Rightarrow> Inl e
               | Inr v \<Rightarrow> (case dscr_from revenues opex_list (Suc i) rest of
                            Inl e \<Rightarrow> Inl e
                          | Inr vs \<Rightarrow> Inr (v # vs))))"

text \<open>\<open>series = [-equity] + cashflows\<close>, given the loan schedule.\<close>

definition cash_series ::
  "project \<Rightarrow> financing \<Rightarrow> loan_entry list \<Rightarrow> real \<Rightarrow> int \<Rightarrow> real \<Rightarrow> real list" where
  "cash_series proj fin loan tax_rate years opex_escalation =
     (let debt_principal = capex proj * debt_pct fin;
          equity = capex proj - debt_principal;
          cashflows = map (after_tax_cf_at proj loan tax_rate years opex_escalation) [1..years]
      in - equity # cashflows)"

definition compute_project_finance ::
  "project \<Rightarrow> financing \<Rightarrow> real \<Rightarrow> real \<Rightarrow> int \<Rightarrow> real \<Rightarrow> py_error + proforma" where
  "compute_project_finance proj fin discount_rate tax_rate years opex_escalation =
     (let debt_principal = capex proj * debt_pct fin
      in case loan_schedule debt_principal (interest_rate fin) (term_years fin) of
           Inl e \<Rightarrow> Inl e
         | Inr loan \<Rightarrow>
             (case year_loop proj opex_escalation years of
                Inl e \<Rightarrow> Inl e
              | Inr u \<Rightarrow>
             (let revenues = map (revenue_at proj) [1..years];
                  opex_list = map (opex_at proj opex_escalation) [1..years];
                  debt_service = map (debt_service_at loan) [1..years];
                  series = cash_series proj fin loan tax_rate years opex_escalation
              in case irr series of
                   Inl e \<Rightarrow> Inl e
                 | Inr irr_val \<Rightarrow>
                     (case npv discount_rate series of
                        Inl e \<Rightarrow> Inl e
                      | Inr npv_val \<Rightarrow>
                          (case dscr_from revenues opex_list 0 debt_service of
                             Inl e \<Rightarrow> Inl e
                           | Inr dscr_values \<Rightarrow>
                               Inr \<lparr>pf_irr = irr_val, pf_npv = npv_val,
                                    pf_payback_year = payback_loop 0 1 (tl series),
                                    pf_min_dscr =
                                      (if dscr_values \<noteq> [] then Some (min_list dscr_values)
                                       else None)\<rparr>)))))"

section \<open>src/sensitivity.py\<close>

definition ppa_mults :: "real list" where
  "ppa_mults = [90 / 100, 95 / 100, 1, 105 / 100, 110 / 100]"

definition capex_mults :: "real list" where
  "capex_mults = [90 / 100, 1, 110 / 100]"

definition debt_levels :: "real \<Rightarrow> real list" where
  "debt_levels base_debt =
     [max 0 (base_debt - 10 / 100), base_debt, min (95 / 100) (base_debt + 10 / 100)]"

text \<open>The body of the innermost loop, up to the dict it appends.\<close>

definition sens_point ::
  "config \<Rightarrow> project \<Rightarrow> financing \<Rightarrow> real \<Rightarrow> real \<Rightarrow> real \<Rightarrow> py_error + sens_row" where
  "sens_point cfg proj fin ppa_m capex_m debt =
     (let temp_proj = proj\<lparr>ppa_price := ppa_price proj * ppa_m,
                           capex := capex proj * capex_m\<rparr>;
          temp_fin = fin\<lparr>debt_pct := debt\<rparr>
      in case compute_project_finance temp_proj temp_fin (cfg_discount_rate cfg)
                (cfg_tax_rate cfg) (cfg_project_life_years cfg) (cfg_opex_escalation cfg) of
           Inl e \<Rightarrow> Inl e
         | Inr out \<Rightarrow>
             Inr \<lparr>row_ppa_mult = ppa_m, row_capex_mult = capex_m, row_debt_pct = debt,
                  row_irr = pf_irr out, row_npv = pf_npv out,
                  row_payback_year = pf_payback_year out,
                  row_min_dscr = pf_min_dscr out\<rparr>)"

text \<open>
  \<open>run_sensitivity\<close> from the two rows the database returned (\<open>None\<close> when there is no
  such row) to the list \<open>results\<close> that is then written out as CSV. The configuration
  is a parameter: the source reads it from a file, with defaults.
\<close>

definition run_sensitivity ::
  "config \<Rightarrow> project option \<Rightarrow> financing option \<Rightarrow> py_error + sens_row list" where
  "run_sensitivity cfg proj_row fin_row =
     (case (proj_row, fin_row) of
        (Some proj, Some fin) \<Rightarrow>
          for_each (\<lambda>ppa_m results.
            for_each (\<lambda>capex_m results.
              for_each (\<lambda>debt results.
                case sens_point cfg proj fin ppa_m capex_m debt of
                  Inl e \<Rightarrow> Inl e
                | Inr row \<Rightarrow> Inr (results @ [row]))
              (debt_levels (debt_pct fin)) results)
            capex_mults results)
          ppa_mults []
      | _ \<Rightarrow> Inl ValueError)"

section \<open>Notions used to state the properties\<close>

subsection \<open>Valid inputs\<close>

text \<open>The ranges the data model gives for the fields of the three input records.\<close>

definition valid_project :: "project \<Rightarrow> bool" where
  "valid_project proj \<longleftrightarrow>
     0 < capacity_mw proj \<and> 0 < capex proj \<and> 0 \<le> opex_annual proj \<and> 0 < ppa_price proj \<and>
     0 \<le> degradation_pct proj \<and> degradation_pct proj < 1 \<and>
     0 < cf_year1 proj \<and> cf_year1 proj \<le> 1"

definition valid_config :: "config \<Rightarrow> bool" where
  "valid_config cfg \<longleftrightarrow>
     0 \<le> cfg_tax_rate cfg \<and> cfg_tax_rate cfg \<le> 1 \<and> 1 \<le> cfg_project_life_years cfg"

definition valid_financing :: "config \<Rightarrow> financing \<Rightarrow> bool" where
  "valid_financing cfg fin \<longleftrightarrow>
     0 \<le> debt_pct fin \<and> debt_pct fin \<le> 1 \<and> 0 \<le> interest_rate fin \<and>
     1 \<le> term_years fin \<and> term_years fin \<le> cfg_project_life_years cfg"

subsection \<open>The sweep as a list of grid points\<close>

text \<open>Evaluating a list of points in order, the first failure being the result.\<close>

fun collect :: "('a \<Rightarrow> py_error + 'b) \<Rightarrow> 'a list \<Rightarrow> py_error + 'b list" where
  "collect g [] = Inr []"
| "collect g (x # xs) =
     (case g x of
        Inl e \<Rightarrow> Inl e
      | Inr y \<Rightarrow> (case collect g xs of Inl e \<Rightarrow> Inl e | Inr ys \<Rightarrow> Inr (y # ys)))"

text \<open>The grid points in the order of the three nested loops.\<close>

definition sens_grid :: "real \<Rightarrow> (real \<times> real \<times> real) list" where
  "sens_grid base_debt =
     concat (map (\<lambda>ppa_m. concat (map (\<lambda>capex_m. map (\<lambda>debt. (ppa_m, capex_m, debt))
       (debt_levels base_debt)) capex_mults)) ppa_mults)"

definition row_coords :: "sens_row \<Rightarrow> real \<times> real \<times> real" where
  "row_coords row = (row_ppa_mult row, row_capex_mult row, row_debt_pct row)"

subsection \<open>Concrete inputs\<close>

text \<open>
  The first seeded project of db/create_db.py (Sunny Ridge 5MW) and its financing row;
  \<open>fin_equity\<close> is the same financing without debt and with a one-year term.
\<close>

definition proj_sunny :: project where
  "proj_sunny = \<lparr>capacity_mw = 5, capex = 4500000, opex_annual = 25000,
     ppa_price = 3 / 100, degradation_pct = 5 / 1000, cf_year1 = 20 / 100\<rparr>"

definition fin_sunny :: financing where
  "fin_sunny = \<lparr>tax_credit_pct = 30 / 100, debt_pct = 70 / 100, interest_rate = 45 / 1000,
     term_years = 12\<rparr>"

definition fin_equity :: financing where
  "fin_equity = \<lparr>tax_credit_pct = 30 / 100, debt_pct = 0, interest_rate = 45 / 1000,
     term_years = 1\<rparr>"

text \<open>The defaults of the callers, and the same with a project life of one year.\<close>

definition cfg_default :: config where
  "cfg_default = \<lparr>cfg_discount_rate = 8 / 100, cfg_tax_rate = 21 / 100,
     cfg_project_life_years = 25, cfg_opex_escalation = 2 / 100\<rparr>"

definition cfg_one_year :: config where
  "cfg_one_year = cfg_default\<lparr>cfg_project_life_years := 1\<rparr>"

text \<open>
  Two projects whose operating cost exceeds their revenue. At the first grid point of
  the sweep, over one year, the series is \<open>[-90000, 48600]\<close> for the first and
  \<open>[-180000, 97200]\<close> for the second, in doubles as well; from the guess \<open>0.08\<close> the
  first Newton step then lands on the rate \<open>-1\<close>, in doubles as well (\<open>-1.0\<close>).
\<close>

definition proj_loss :: project where
  "proj_loss = \<lparr>capacity_mw = 1, capex = 100000, opex_annual = 100530,
     ppa_price = 3 / 100, degradation_pct = 0, cf_year1 = 25 / 100\<rparr>"

definition proj_loss2 :: project where
  "proj_loss2 = \<lparr>capacity_mw = 1, capex = 200000, opex_annual = 141930,
     ppa_price = 3 / 100, degradation_pct = 0, cf_year1 = 25 / 100\<rparr>"

text \<open>The financing \<open>fin_equity\<close> with everything borrowed.\<close>

definition fin_all_debt :: financing where
  "fin_all_debt = fin_equity\<lparr>debt_pct := 1\<rparr>"

text \<open>
  Financing records outside the documented ranges: a debt share of 2, and a term of
  zero years.
\<close>

definition fin_overdrawn :: financing where
  "fin_overdrawn = fin_equity\<lparr>debt_pct := 2\<rparr>"

definition fin_no_term :: financing where
  "fin_no_term = fin_sunny\<lparr>term_years := 0\<rparr>"

subsection \<open>Years with debt service\<close>

text \<open>
  The years of the horizon in which the debt service is positive, and the coverage
  ratio \<open>(revenue - opex) / debt_service\<close> of a year.
\<close>

definition paying_years :: "loan_entry list \<Rightarrow> int \<Rightarrow> int list" where
  "paying_years loan years = filter (\<lambda>y. 0 < debt_service_at loan y) [1..years]"

definition dscr_at :: "project \<Rightarrow> real \<Rightarrow> loan_entry list \<Rightarrow> int \<Rightarrow> real" where
  "dscr_at proj opex_escalation loan y =
     (revenue_at proj y - opex_at proj opex_escalation y) / debt_service_at loan y"

text \<open>The seeded financing with half of the capex borrowed over one year.\<close>

definition fin_half_debt :: financing where
  "fin_half_debt = fin_equity\<lparr>debt_pct := 1 / 2\<rparr>"

subsection \<open>Newton's method as the specification words it\<close>

text \<open>
  The NPV of a series at the rate \<open>r\<close> and its derivative \<open>\<Sum> -t cf\<^sub>t / (1 + r)^(t + 1)\<close>,
  as plain sums.
\<close>

definition npv_sum :: "real \<Rightarrow> real list \<Rightarrow> real" where
  "npv_sum r cfs = (\<Sum>t<length cfs. cfs ! t / (1 + r) ^ t)"

definition d_npv_sum :: "real \<Rightarrow> real list \<Rightarrow> real" where
  "d_npv_sum r cfs = (\<Sum>t<length cfs. - real t * cfs ! t / (1 + r) ^ (t + 1))"

text \<open>
  Newton-Raphson on the NPV from the estimate \<open>r\<close> with \<open>n\<close> iterations left: a derivative
  of magnitude at most \<open>1e-12\<close> stops it with the current estimate, a step shorter than
  the tolerance stops it with the new estimate, and with no iteration left the last
  estimate is the result. This follows the wording of the specification; the slope
  guard is taken with \<open>\<le>\<close>, as \<open>isclose\<close> has it.
\<close>

fun newton_spec :: "real list \<Rightarrow> real \<Rightarrow> nat \<Rightarrow> real \<Rightarrow> real" where
  "newton_spec cfs tol 0 r = r"
| "newton_spec cfs tol (Suc n) r =
     (if \<bar>d_npv_sum r cfs\<bar> \<le> 1 / 10 ^ 12 then r
      else (let new_r = r - npv_sum r cfs / d_npv_sum r cfs
            in if \<bar>new_r - r\<bar> < tol then new_r else newton_spec cfs tol n new_r))"

text \<open>The estimates at which that iteration evaluates the NPV and its derivative, in order.\<close>

fun newton_trace :: "real list \<Rightarrow> real \<Rightarrow> nat \<Rightarrow> real \<Rightarrow> real list" where
  "newton_trace cfs tol 0 r = []"
| "newton_trace cfs tol (Suc n) r =
     r # (if \<bar>d_npv_sum r cfs\<bar> \<le> 1 / 10 ^ 12 then []
          else (let new_r = r - npv_sum r cfs / d_npv_sum r cfs
                in if \<bar>new_r - r\<bar> < tol then [] else newton_trace cfs tol n new_r))"

text \<open>The two sums of a pass of \<open>irr\<close> at the estimate \<open>r\<close> raise nothing.\<close>

definition pass_computes :: "real \<Rightarrow> real list \<Rightarrow> bool" where
  "pass_computes r cfs \<longleftrightarrow> \<not> isl (npv_from r 0 cfs) \<and> \<not> isl (d_npv_from r 0 cfs)"

text \<open>The number of sign changes along a series, zeros skipped.\<close>

definition sign_changes :: "real list \<Rightarrow> nat" where
  "sign_changes cfs =
     (let xs = filter (\<lambda>x. x \<noteq> 0) cfs
      in length (filter (\<lambda>(a, b). a * b < 0) (zip xs (tl xs))))"

subsection \<open>The payback year as the specification words it\<close>

text \<open>
  The first year index \<open>t \<ge> 1\<close> at which the running sum of the series, its entry at
  index 0 included, is strictly positive; \<open>None\<close> when there is none. This follows the
  wording of the specification, not the source, and is what the payback loop of
  \<open>compute_project_finance\<close> is compared with.
\<close>

definition payback_spec :: "real list \<Rightarrow> nat option" where
  "payback_spec series =
     find (\<lambda>t. 0 < sum_list (take (Suc t) series)) [1..<length series]"

subsection \<open>A project of two years\<close>

text \<open>
  An all-equity project with a life of two years whose series is
  \<open>[-20800, 11664, 11664]\<close>, with internal rate of return exactly \<open>0.08\<close>.
\<close>

definition proj_two_year :: project where
  "proj_two_year = \<lparr>capacity_mw = 1, capex = 20800, opex_annual = 3116,
     ppa_price = 1 / 1000, degradation_pct = 0, cf_year1 = 1 / 2\<rparr>"

definition cfg_two_year :: config where
  "cfg_two_year = \<lparr>cfg_discount_rate = 8 / 100, cfg_tax_rate = 21 / 100,
     cfg_project_life_years = 2, cfg_opex_escalation = 0\<rparr>"

section \<open>Properties\<close>

subsection \<open>The nested loops of the sweep\<close>

lemma for_each_collect:
  "for_each (\<lambda>x acc. case G x of Inl e \<Rightarrow> Inl e | Inr rows \<Rightarrow> Inr (acc @ rows)) xs acc
   = (case collect G xs of Inl e \<Rightarrow> Inl e | Inr rss \<Rightarrow> Inr (acc @ concat rss))"
  by (induction xs arbitrary: acc) (auto split: sum.splits)

lemma for_each_collect1:
  "for_each (\<lambda>x acc. case g x of Inl e \<Rightarrow> Inl e | Inr row \<Rightarrow> Inr (acc @ [row])) xs acc
   = (case collect g xs of Inl e \<Rightarrow> Inl e | Inr rows \<Rightarrow> Inr (acc @ rows))"
  by (induction xs arbitrary: acc) (auto split: sum.splits)

lemma for_each_collect_fun:
  "for_each (\<lambda>x acc. case G x of Inl e \<Rightarrow> Inl e | Inr rows \<Rightarrow> Inr (acc @ rows)) xs
   = (\<lambda>acc. case collect G xs of Inl e \<Rightarrow> Inl e | Inr rss \<Rightarrow> Inr (acc @ concat rss))"
  by (rule ext) (rule for_each_collect)

lemma for_each_collect1_fun:
  "for_each (\<lambda>x acc. case g x of Inl e \<Rightarrow> Inl e | Inr row \<Rightarrow> Inr (acc @ [row])) xs
   = (\<lambda>acc. case collect g xs of Inl e \<Rightarrow> Inl e | Inr rows \<Rightarrow> Inr (acc @ rows))"
  by (rule ext) (rule for_each_collect1)

lemma collect_append:
  "collect g (xs @ ys) =
     (case collect g xs of Inl e \<Rightarrow> Inl e
      | Inr as \<Rightarrow> (case collect g ys of Inl e \<Rightarrow> Inl e | Inr bs \<Rightarrow> Inr (as @ bs)))"
  by (induction xs) (auto split: sum.splits)

lemma collect_map: "collect g (map h xs) = collect (\<lambda>x. g (h x)) xs"
  by (induction xs) (auto split: sum.splits)

lemma collect_concat:
  "(case collect (\<lambda>x. collect g (h x)) xs of Inl e \<Rightarrow> Inl e | Inr rss \<Rightarrow> Inr (concat rss))
   = collect g (concat (map h xs))"
  by (induction xs) (auto simp: collect_append split: sum.splits)

lemma run_sensitivity_collect:
  "run_sensitivity cfg (Some proj) (Some fin) =
     collect (\<lambda>(ppa_m, capex_m, debt). sens_point cfg proj fin ppa_m capex_m debt)
       (sens_grid (debt_pct fin))"
proof -
  let ?g = "\<lambda>(ppa_m, capex_m, debt). sens_point cfg proj fin ppa_m capex_m debt"
  let ?hd = "\<lambda>ppa_m capex_m. map (\<lambda>debt. (ppa_m, capex_m, debt)) (debt_levels (debt_pct fin))"
  let ?hc = "\<lambda>ppa_m. concat (map (?hd ppa_m) capex_mults)"
  have inner: "for_each (\<lambda>debt results.
                case sens_point cfg proj fin ppa_m capex_m debt of
                  Inl e \<Rightarrow> Inl e
                | Inr row \<Rightarrow> Inr (results @ [row])) (debt_levels (debt_pct fin))
      = (\<lambda>acc. case collect ?g (?hd ppa_m capex_m) of Inl e \<Rightarrow> Inl e | Inr rows \<Rightarrow> Inr (acc @ rows))"
    for ppa_m capex_m
    by (simp add: for_each_collect1_fun collect_map)
  have middle: "for_each (\<lambda>capex_m.
              for_each (\<lambda>debt results.
                case sens_point cfg proj fin ppa_m capex_m debt of
                  Inl e \<Rightarrow> Inl e
                | Inr row \<Rightarrow> Inr (results @ [row]))
              (debt_levels (debt_pct fin))) capex_mults
      = (\<lambda>acc. case collect ?g (?hc ppa_m) of Inl e \<Rightarrow> Inl e | Inr rows \<Rightarrow> Inr (acc @ rows))"
    for ppa_m
    unfolding inner for_each_collect_fun collect_concat [symmetric]
    by (rule ext) (simp split: sum.splits)
  have outer: "for_each (\<lambda>ppa_m.
            for_each (\<lambda>capex_m.
              for_each (\<lambda>debt results.
                case sens_point cfg proj fin ppa_m capex_m debt of
                  Inl e \<Rightarrow> Inl e
                | Inr row \<Rightarrow> Inr (results @ [row]))
              (debt_levels (debt_pct fin))) capex_mults) ppa_mults
      = (\<lambda>acc. case collect ?g (concat (map ?hc ppa_mults)) of
                 Inl e \<Rightarrow> Inl e | Inr rows \<Rightarrow> Inr (acc @ rows))"
    unfolding middle for_each_collect_fun collect_concat [symmetric]
    by (rule ext) (simp split: sum.splits)
  show ?thesis
    unfolding run_sensitivity_def sens_grid_def
    by (simp add: outer split: sum.splits)
qed

lemma collect_Inr_iff:
  "collect g xs = Inr ys \<longleftrightarrow> list_all2 (\<lambda>x y. g x = Inr y) xs ys"
proof (induction xs arbitrary: ys)
  case Nil
  then show ?case by auto
next
  case (Cons x xs)
  show ?case
  proof
    assume "collect g (x # xs) = Inr ys"
    then obtain y zs where "g x = Inr y" "collect g xs = Inr zs" "ys = y # zs"
      by (auto split: sum.splits)
    with Cons.IH [of zs] show "list_all2 (\<lambda>x y. g x = Inr y) (x # xs) ys" by simp
  next
    assume "list_all2 (\<lambda>x y. g x = Inr y) (x # xs) ys"
    then obtain y zs where "ys = y # zs" "g x = Inr y" "list_all2 (\<lambda>x y. g x = Inr y) xs zs"
      by (auto simp: list_all2_Cons1)
    with Cons.IH [of zs] show "collect g (x # xs) = Inr ys" by simp
  qed
qed

lemma collect_Inl_member:
  "x \<in> set xs \<Longrightarrow> g x = Inl e \<Longrightarrow> \<exists>e'. collect g xs = Inl e'"
  by (induction xs) (auto split: sum.splits)

lemma collect_all_ok:
  "(\<And>x. x \<in> set xs \<Longrightarrow> \<exists>y. g x = Inr y) \<Longrightarrow> \<exists>ys. collect g xs = Inr ys"
proof (induction xs)
  case Nil
  then show ?case by simp
next
  case (Cons x xs)
  from Cons.prems [of x] obtain y where "g x = Inr y" by auto
  moreover from Cons.IH Cons.prems obtain ys where "collect g xs = Inr ys" by auto
  ultimately show ?case by simp
qed

lemma sens_point_coords:
  "sens_point cfg proj fin ppa_m capex_m debt = Inr row \<Longrightarrow>
     row_coords row = (ppa_m, capex_m, debt)"
  by (auto simp: sens_point_def row_coords_def Let_def split: sum.splits)

lemma run_sensitivity_coords:
  assumes "run_sensitivity cfg (Some proj) (Some fin) = Inr rows"
  shows "map row_coords rows = sens_grid (debt_pct fin)"
proof -
  from assms have "list_all2
      (\<lambda>pt row. (case pt of (ppa_m, capex_m, debt) \<Rightarrow>
                   sens_point cfg proj fin ppa_m capex_m debt) = Inr row)
      (sens_grid (debt_pct fin)) rows"
    by (simp add: run_sensitivity_collect collect_Inr_iff)
  then have "list_all2 (\<lambda>pt row. row_coords row = pt) (sens_grid (debt_pct fin)) rows"
    by (rule list_all2_mono) (auto dest: sens_point_coords)
  then show ?thesis
    by (induction rule: list_all2_induct) auto
qed

lemma sens_grid_length: "length (sens_grid b) = 45"
  by (simp add: sens_grid_def ppa_mults_def capex_mults_def debt_levels_def)

lemma sens_grid_debt: "(p, c, d) \<in> set (sens_grid b) \<Longrightarrow> d \<in> set (debt_levels b)"
  by (auto simp: sens_grid_def)

lemma sens_grid_mem:
  "(p, c, d) \<in> set (sens_grid b) \<Longrightarrow>
     p \<in> set ppa_mults \<and> c \<in> set capex_mults \<and> d \<in> set (debt_levels b)"
  by (auto simp: sens_grid_def)

lemma sens_grid_first:
  "\<exists>rest. sens_grid b = (90 / 100, 90 / 100, max 0 (b - 10 / 100)) # rest"
  by (simp add: sens_grid_def ppa_mults_def capex_mults_def debt_levels_def)

subsection \<open>When the pieces of the engine return\<close>

lemma isclose0_iff: "isclose0 d \<longleftrightarrow> \<bar>d\<bar> \<le> 1 / 10 ^ 12"
  unfolding isclose0_def by (auto simp: max_def abs_if)

lemma float_max_ge: "2 ^ 1000 \<le> float_max"
proof -
  have "(2 :: real) ^ 1000 = 2 ^ 29 * 2 ^ 971" by (simp only: power_add [symmetric]) simp
  also have "\<dots> \<le> (2 ^ 53 - 1) * 2 ^ 971"
    by (intro mult_right_mono) simp_all
  finally show ?thesis by (simp only: float_max_def)
qed

lemma in_range: "\<bar>v\<bar> \<le> 2 ^ 1000 \<Longrightarrow> \<not> float_max < \<bar>v\<bar>"
  using float_max_ge by linarith

lemma py_pow_0: "py_pow x 0 = Inr 1"
  using in_range [of 1] by (simp add: py_pow_def Let_def)

lemma py_pow_nonneg:
  "0 \<le> n \<Longrightarrow> \<bar>x ^ nat n\<bar> \<le> 2 ^ 1000 \<Longrightarrow> py_pow x n = Inr (x ^ nat n)"
  by (simp add: py_pow_def Let_def in_range)

lemma py_pow_1: "\<bar>x\<bar> \<le> 2 ^ 1000 \<Longrightarrow> py_pow x 1 = Inr x"
  using py_pow_nonneg [of 1 x] by simp

lemma py_pow_2: "\<bar>x\<bar> \<le> 2 ^ 500 \<Longrightarrow> py_pow x 2 = Inr (x ^ 2)"
proof -
  assume "\<bar>x\<bar> \<le> 2 ^ 500"
  then have "\<bar>x\<bar> ^ 2 \<le> (2 ^ 500) ^ 2" by (intro power_mono) simp_all
  then have "\<bar>x ^ nat 2\<bar> \<le> 2 ^ 1000" by (simp add: power_abs power_mult [symmetric])
  then show ?thesis using py_pow_nonneg [of 2 x] by simp
qed

lemma py_pow_small:
  assumes "0 \<le> n" "\<bar>x\<bar> \<le> 2" "n \<le> 1000"
  shows "py_pow x n = Inr (x ^ nat n)"
proof -
  have "\<bar>x ^ nat n\<bar> = \<bar>x\<bar> ^ nat n" by (rule power_abs)
  also have "\<dots> \<le> 2 ^ nat n" using assms(2) by (intro power_mono) simp_all
  also have "\<dots> \<le> (2 :: real) ^ 1000" using assms(3) by (intro power_increasing) simp_all
  finally show ?thesis by (rule py_pow_nonneg [OF assms(1)])
qed

lemma dscr_from_ok: "\<exists>vs. dscr_from revenues opex_list i dss = Inr vs"
proof (induction dss arbitrary: i)
  case Nil
  then show ?case by simp
next
  case (Cons ds rest)
  from Cons [of "Suc i"] obtain vs where "dscr_from revenues opex_list (Suc i) rest = Inr vs" ..
  then show ?case by (simp add: py_div_def Let_def)
qed

lemma year_loop_one: "year_loop proj opex_escalation 1 = Inr ()"
  by (simp add: year_loop_def year_powers_def py_pow_0)

lemma year_loop_none: "years \<le> 0 \<Longrightarrow> year_loop proj opex_escalation years = Inr ()"
  by (simp add: year_loop_def)

lemma compute_project_finance_ok:
  assumes "loan_schedule (capex proj * debt_pct fin) (interest_rate fin) (term_years fin) = Inr loan"
    and "year_loop proj opex_escalation years = Inr u"
    and "irr (cash_series proj fin loan tax_rate years opex_escalation) = Inr x"
    and "npv discount_rate (cash_series proj fin loan tax_rate years opex_escalation) = Inr v"
  shows "\<exists>res. compute_project_finance proj fin discount_rate tax_rate years opex_escalation
            = Inr res \<and> pf_irr res = x \<and> pf_npv res = v"
proof -
  obtain dv where dv: "dscr_from (map (revenue_at proj) [1..years])
      (map (opex_at proj opex_escalation) [1..years]) 0
      (map (debt_service_at loan) [1..years]) = Inr dv"
    using dscr_from_ok by blast
  show ?thesis
    unfolding compute_project_finance_def Let_def assms(1) sum.case assms(2) assms(3) assms(4) dv
    by simp
qed

subsection \<open>A series of two cash flows\<close>

lemma npv_from_two:
  "\<bar>1 + r\<bar> \<le> 2 ^ 500 \<Longrightarrow>
     npv_from r 0 [a, b] = (if 1 + r = 0 then Inl ZeroDivisionError else Inr (a + b / (1 + r)))"
  by (simp add: py_div_def py_pow_0 py_pow_1)

lemma d_npv_from_two:
  "\<bar>1 + r\<bar> \<le> 2 ^ 500 \<Longrightarrow>
     d_npv_from r 0 [a, b] =
       (if 1 + r = 0 then Inl ZeroDivisionError else Inr (- b / (1 + r) ^ 2))"
  by (simp add: py_div_def py_pow_1 py_pow_2)

text \<open>
  With \<open>u = 1 + r\<close> and \<open>q = -a / b\<close> the Newton step on \<open>[a, b]\<close> is
  \<open>u \<mapsto> u (2 - q u)\<close>, which keeps \<open>0 < u\<close> and \<open>q u < 2\<close>, so no estimate is \<open>-1\<close>; for
  \<open>0 \<le> q\<close> it at most doubles \<open>u\<close>, so no power leaves the range of doubles.
\<close>

lemma irr_loop_two_ok:
  assumes "0 \<le> q" "a = - q * b"
    and "0 < 1 + r" "q * (1 + r) < 2" "(1 + r) * 2 ^ n \<le> 2 ^ 400"
  shows "\<exists>x. irr_loop [a, b] tol n r = Inr x"
  using assms(3,4,5)
proof (induction n arbitrary: r)
  case 0
  then show ?case by simp
next
  case (Suc n)
  let ?u = "1 + r"
  let ?d = "- b / ?u ^ 2"
  let ?new = "r - (a + b / ?u) / ?d"
  from Suc.prems have u: "?u \<noteq> 0" by simp
  have "(1 :: real) \<le> 2 ^ Suc n" by (rule one_le_power) simp
  then have "?u * 1 \<le> ?u * 2 ^ Suc n"
    using Suc.prems(1) by (intro mult_left_mono) simp_all
  with Suc.prems(3) have "?u \<le> 2 ^ 400" by simp
  also have "\<dots> \<le> (2 :: real) ^ 500" by (intro power_increasing) simp_all
  finally have range: "\<bar>?u\<bar> \<le> 2 ^ 500" using Suc.prems(1) by simp
  note two = npv_from_two [OF range] d_npv_from_two [OF range]
  show ?case
  proof (cases "isclose0 ?d")
    case True
    with u show ?thesis
      by (simp del: npv_from.simps d_npv_from.simps add: two)
  next
    case False
    then have d: "?d \<noteq> 0" by (auto simp: isclose0_iff)
    then have b: "b \<noteq> 0" by auto
    have step: "(- q * b + b / v) / (- b / v ^ 2) = q * v ^ 2 - v" if "v \<noteq> 0" for v :: real
      using that b by (simp add: field_simps power2_eq_square)
    have "1 + ?new = ?u - (q * ?u ^ 2 - ?u)"
      unfolding assms(2) step [OF u] by simp
    then have new: "1 + ?new = ?u * (2 - q * ?u)"
      by (simp add: power2_eq_square algebra_simps)
    have pos: "0 < 1 + ?new"
      unfolding new using Suc.prems by (intro mult_pos_pos) auto
    have "q * (1 + ?new) = (q * ?u) * (2 - q * ?u)"
      unfolding new by (simp add: algebra_simps)
    also have "\<dots> = 1 - (1 - q * ?u) ^ 2"
      by (simp add: power2_eq_square algebra_simps)
    also have "\<dots> < 2"
      using zero_le_power2 [of "1 - q * ?u"] by linarith
    finally have lt: "q * (1 + ?new) < 2" .
    have "0 \<le> q * ?u" using assms(1) Suc.prems(1) by simp
    then have "?u * (2 - q * ?u) \<le> ?u * 2"
      using Suc.prems(1) by (intro mult_left_mono) simp_all
    then have "(1 + ?new) * 2 ^ n \<le> (?u * 2) * 2 ^ n"
      unfolding new by (intro mult_right_mono) simp_all
    also have "\<dots> = ?u * 2 ^ Suc n" by simp
    also note Suc.prems(3)
    finally have bound: "(1 + ?new) * 2 ^ n \<le> 2 ^ 400" .
    from Suc.IH [OF pos lt bound] obtain x where x: "irr_loop [a, b] tol n ?new = Inr x" ..
    show ?thesis
      using u d False x
      by (simp del: npv_from.simps d_npv_from.simps add: two py_div_def Let_def)
  qed
qed

lemma irr_loop_flat:
  assumes "\<bar>1 + r\<bar> \<le> 2" "1 + r \<noteq> 0"
  shows "irr_loop [a, 0] tol (Suc n) r = Inr r"
proof -
  have "\<bar>1 + r\<bar> \<le> 2 ^ 1" using assms(1) by simp
  also have "\<dots> \<le> (2 :: real) ^ 500" by (intro power_increasing) simp_all
  finally have range: "\<bar>1 + r\<bar> \<le> 2 ^ 500" .
  show ?thesis
    using assms(2)
    by (simp del: npv_from.simps d_npv_from.simps
          add: npv_from_two [OF range] d_npv_from_two [OF range] isclose0_iff)
qed

text \<open>At a root of the NPV with a slope the guard lets pass, the first pass returns.\<close>

lemma irr_loop_at_root:
  assumes "npv_from r 0 cfs = Inr 0" "d_npv_from r 0 cfs = Inr d" "\<not> isclose0 d" "0 < tol"
  shows "irr_loop cfs tol (Suc n) r = Inr r"
proof -
  from assms(3) have "d \<noteq> 0" by (auto simp: isclose0_iff)
  with assms show ?thesis by (simp add: py_div_def Let_def)
qed

lemma irr_two_ok:
  assumes "0 \<le> E / b" "E / b * (108 / 100) < 2"
  shows "\<exists>x. irr [- E, b] = Inr x"
proof -
  have "(108 / 100 :: real) * 2 ^ 200 \<le> 2 * 2 ^ 200" by (intro mult_right_mono) simp_all
  also have "\<dots> = (2 :: real) ^ 201" by simp
  also have "\<dots> \<le> (2 :: real) ^ 400" by (intro power_increasing) simp_all
  finally have bound: "(1 + 8 / 100 :: real) * 2 ^ 200 \<le> 2 ^ 400" by simp
  have "- E = - (E / b) * b \<or> b = 0" by simp
  then show ?thesis
  proof
    assume "- E = - (E / b) * b"
    with assms bound show ?thesis
      unfolding irr_def irr_with_def
      by (intro irr_loop_two_ok [where q = "E / b"]) auto
  next
    assume b: "b = 0"
    have "irr [- E, b] = Inr (8 / 100)"
      unfolding irr_def irr_with_def b using irr_loop_flat [of "8 / 100" "- E" _ 199] by simp
    then show ?thesis ..
  qed
qed

subsection \<open>A project life of one year\<close>

lemma loan_schedule_one_year:
  "1 / 2 ^ 53 < rate \<Longrightarrow> rate \<le> 1 \<Longrightarrow> loan_schedule amount rate 1 =
     Inr [\<lparr>le_year = 1, le_payment = amount * (1 + rate), le_interest = amount * rate,
           le_principal = amount * (1 + rate) - amount * rate,
           le_balance = max (amount - (amount * (1 + rate) - amount * rate)) 0\<rparr>]"
proof -
  assume rate: "1 / 2 ^ 53 < rate" "rate \<le> 1"
  have "(0 :: real) < 1 / 2 ^ 53" by simp
  with rate(1) have pos: "0 < rate" by linarith
  have "\<bar>1 + rate\<bar> \<le> 2 ^ 1" using pos rate(2) by simp
  also have "\<dots> \<le> (2 :: real) ^ 1000" by (intro power_increasing) simp_all
  finally have "py_pow (1 + rate) 1 = Inr (1 + rate)" by (rule py_pow_1)
  moreover have "one_plus_rate rate = 1 + rate"
    using rate(1) by (simp add: one_plus_rate_def)
  ultimately show ?thesis
    using pos by (simp add: loan_schedule_def py_div_def Let_def)
qed

lemma cash_series_one_year:
  "cash_series proj fin loan tax_rate 1 opex_escalation =
     [- (capex proj - capex proj * debt_pct fin),
      after_tax_cf_at proj loan tax_rate 1 opex_escalation 1]"
  by (simp add: cash_series_def Let_def)

lemma irr_loop_hits_minus_one:
  assumes "1 \<le> b" "50 * b = 27 * E"
  shows "irr_loop [- E, b] (1 / 10 ^ 6) (Suc (Suc n)) (8 / 100) = Inl ZeroDivisionError"
proof -
  have E: "E = 50 * b / 27" using assms by simp
  have "\<not> isclose0 (- b / (1 + 8 / 100) ^ 2)"
    using assms(1) by (simp add: isclose0_iff power2_eq_square)
  moreover have "\<bar>1 + r\<bar> \<le> 2 ^ 500" if "\<bar>1 + r\<bar> \<le> 2" for r :: real
  proof -
    have "\<bar>1 + r\<bar> \<le> 2 ^ 1" using that by simp
    also have "\<dots> \<le> (2 :: real) ^ 500" by (intro power_increasing) simp_all
    finally show ?thesis .
  qed
  ultimately show ?thesis
    unfolding E using assms(1)
    by (simp del: npv_from.simps d_npv_from.simps
          add: npv_from_two d_npv_from_two py_div_def Let_def power2_eq_square)
qed

lemma irr_hits_minus_one:
  assumes "1 \<le> b" "50 * b = 27 * E"
  shows "irr [- E, b] = Inl ZeroDivisionError"
proof -
  have "(200::nat) = Suc (Suc 198)" by simp
  then show ?thesis
    unfolding irr_def irr_with_def
    by (simp only: irr_loop_hits_minus_one [OF assms])
qed

lemma sens_point_one_year_ok:
  assumes "cfg_project_life_years cfg = 1"
    and "1 + cfg_discount_rate cfg \<noteq> 0" "\<bar>1 + cfg_discount_rate cfg\<bar> \<le> 2"
    and "loan_schedule (capex proj * capex_m * debt) (interest_rate fin) (term_years fin)
           = Inr loan"
    and "(capex proj * capex_m - capex proj * capex_m * debt)
         / after_tax_cf_at (proj\<lparr>ppa_price := ppa_price proj * ppa_m,
                           capex := capex proj * capex_m\<rparr>) loan (cfg_tax_rate cfg) 1
                 (cfg_opex_escalation cfg) 1 * (108 / 100) < 2"
    and "0 \<le> (capex proj * capex_m - capex proj * capex_m * debt)
         / after_tax_cf_at (proj\<lparr>ppa_price := ppa_price proj * ppa_m,
                           capex := capex proj * capex_m\<rparr>) loan (cfg_tax_rate cfg) 1
                 (cfg_opex_escalation cfg) 1"
  shows "\<exists>row. sens_point cfg proj fin ppa_m capex_m debt = Inr row"
proof -
  let ?p = "proj\<lparr>ppa_price := ppa_price proj * ppa_m, capex := capex proj * capex_m\<rparr>"
  let ?f = "fin\<lparr>debt_pct := debt\<rparr>"
  have loan: "loan_schedule (capex ?p * debt_pct ?f) (interest_rate ?f) (term_years ?f) = Inr loan"
    using assms(4) by simp
  obtain x where
    x: "irr (cash_series ?p ?f loan (cfg_tax_rate cfg) 1 (cfg_opex_escalation cfg)) = Inr x"
    unfolding cash_series_one_year using irr_two_ok [OF assms(6) assms(5)] by auto
  have "\<bar>1 + cfg_discount_rate cfg\<bar> \<le> 2 ^ 1" using assms(3) by simp
  also have "\<dots> \<le> (2 :: real) ^ 500" by (intro power_increasing) simp_all
  finally have "\<exists>v. npv (cfg_discount_rate cfg)
      (cash_series ?p ?f loan (cfg_tax_rate cfg) 1 (cfg_opex_escalation cfg)) = Inr v"
    unfolding cash_series_one_year npv_def using assms(2)
    by (simp del: npv_from.simps add: npv_from_two)
  then obtain v where
    v: "npv (cfg_discount_rate cfg)
      (cash_series ?p ?f loan (cfg_tax_rate cfg) 1 (cfg_opex_escalation cfg)) = Inr v" ..
  from compute_project_finance_ok [OF loan year_loop_one x v]
  show ?thesis
    by (auto simp: sens_point_def Let_def assms(1))
qed

lemma sens_point_one_year_fails:
  assumes "cfg_project_life_years cfg = 1"
    and "loan_schedule (capex proj * capex_m * debt) (interest_rate fin) (term_years fin)
           = Inr loan"
    and "1 \<le> after_tax_cf_at (proj\<lparr>ppa_price := ppa_price proj * ppa_m,
                           capex := capex proj * capex_m\<rparr>) loan (cfg_tax_rate cfg) 1
                 (cfg_opex_escalation cfg) 1"
    and "50 * after_tax_cf_at (proj\<lparr>ppa_price := ppa_price proj * ppa_m,
                           capex := capex proj * capex_m\<rparr>) loan (cfg_tax_rate cfg) 1
                 (cfg_opex_escalation cfg) 1
         = 27 * (capex proj * capex_m - capex proj * capex_m * debt)"
  shows "sens_point cfg proj fin ppa_m capex_m debt = Inl ZeroDivisionError"
proof -
  let ?p = "proj\<lparr>ppa_price := ppa_price proj * ppa_m, capex := capex proj * capex_m\<rparr>"
  let ?f = "fin\<lparr>debt_pct := debt\<rparr>"
  have loan: "loan_schedule (capex ?p * debt_pct ?f) (interest_rate ?f) (term_years ?f) = Inr loan"
    using assms(2) by simp
  have series: "cash_series ?p ?f loan (cfg_tax_rate cfg) 1 (cfg_opex_escalation cfg)
      = [- (capex proj * capex_m - capex proj * capex_m * debt),
         after_tax_cf_at ?p loan (cfg_tax_rate cfg) 1 (cfg_opex_escalation cfg) 1]"
    by (simp add: cash_series_one_year)
  have "irr (cash_series ?p ?f loan (cfg_tax_rate cfg) 1 (cfg_opex_escalation cfg))
      = Inl ZeroDivisionError"
    unfolding series by (rule irr_hits_minus_one [OF assms(3,4)])
  then show ?thesis
    unfolding sens_point_def compute_project_finance_def Let_def loan sum.case assms(1)
      year_loop_one
    by simp
qed

text \<open>The seeded project, all equity at base, over one year: every grid point returns.\<close>

lemma sunny_point_ok:
  assumes "ppa_m \<in> set ppa_mults" "capex_m \<in> set capex_mults"
    and "debt \<in> set (debt_levels 0) \<union> set (debt_levels 1)"
  shows "\<exists>row. sens_point cfg_one_year proj_sunny fin_equity ppa_m capex_m debt = Inr row"
proof -
  let ?loan = "[\<lparr>le_year = 1, le_payment = capex proj_sunny * capex_m * debt * (1 + 45 / 1000),
           le_interest = capex proj_sunny * capex_m * debt * (45 / 1000),
           le_principal = capex proj_sunny * capex_m * debt * (1 + 45 / 1000)
              - capex proj_sunny * capex_m * debt * (45 / 1000),
           le_balance = max (capex proj_sunny * capex_m * debt
             - (capex proj_sunny * capex_m * debt * (1 + 45 / 1000)
                - capex proj_sunny * capex_m * debt * (45 / 1000))) 0\<rparr>]"
  let ?c = "after_tax_cf_at (proj_sunny\<lparr>ppa_price := ppa_price proj_sunny * ppa_m,
              capex := capex proj_sunny * capex_m\<rparr>) ?loan (cfg_tax_rate cfg_one_year) 1
              (cfg_opex_escalation cfg_one_year) 1"
  have p: "ppa_m = 90 / 100 \<or> ppa_m = 95 / 100 \<or> ppa_m = 1 \<or> ppa_m = 105 / 100
      \<or> ppa_m = 110 / 100"
    using assms(1) by (simp only: ppa_mults_def list.set insert_iff empty_iff simp_thms)
  have c: "capex_m = 90 / 100 \<or> capex_m = 1 \<or> capex_m = 110 / 100"
    using assms(2) by (simp only: capex_mults_def list.set insert_iff empty_iff simp_thms)
  have d: "debt = 0 \<or> debt = 10 / 100 \<or> debt = 90 / 100 \<or> debt = 1 \<or> debt = 95 / 100"
    using assms(3) by (auto simp: debt_levels_def)
  have loan: "loan_schedule (capex proj_sunny * capex_m * debt) (interest_rate fin_equity)
      (term_years fin_equity) = Inr ?loan"
    by (simp add: fin_equity_def loan_schedule_one_year)
  have ratio: "(capex proj_sunny * capex_m - capex proj_sunny * capex_m * debt) / ?c
      * (108 / 100) < 2"
    using p c d
    by (elim disjE; hypsubst;
        simp add: proj_sunny_def fin_equity_def cfg_one_year_def cfg_default_def
          after_tax_cf_at_def revenue_at_def opex_at_def debt_service_at_def Let_def)
  have sign: "0 \<le> (capex proj_sunny * capex_m - capex proj_sunny * capex_m * debt) / ?c"
    using p c d
    by (elim disjE; hypsubst;
        simp add: proj_sunny_def fin_equity_def cfg_one_year_def cfg_default_def
          after_tax_cf_at_def revenue_at_def opex_at_def debt_service_at_def Let_def)
  show ?thesis
    by (rule sens_point_one_year_ok [OF _ _ _ loan ratio sign])
      (simp_all add: cfg_one_year_def cfg_default_def)
qed

lemma sunny_sweep_ok:
  assumes "b = 0 \<or> b = 1"
  shows "\<exists>rows. run_sensitivity cfg_one_year (Some proj_sunny) (Some (fin_equity\<lparr>debt_pct := b\<rparr>))
           = Inr rows"
  unfolding run_sensitivity_collect
proof (rule collect_all_ok)
  fix pt assume pt: "pt \<in> set (sens_grid (debt_pct (fin_equity\<lparr>debt_pct := b\<rparr>)))"
  obtain p c d where eq: "pt = (p, c, d)" by (cases pt)
  with pt have "(p, c, d) \<in> set (sens_grid b)" by simp
  from sens_grid_mem [OF this] assms
  have "p \<in> set ppa_mults" "c \<in> set capex_mults" "d \<in> set (debt_levels 0) \<union> set (debt_levels 1)"
    by auto
  from sunny_point_ok [OF this] obtain row where
    row: "sens_point cfg_one_year proj_sunny fin_equity p c d = Inr row" ..
  have "sens_point cfg_one_year proj_sunny (fin_equity\<lparr>debt_pct := b\<rparr>) p c d
      = sens_point cfg_one_year proj_sunny fin_equity p c d"
    by (simp add: sens_point_def)
  with row show "\<exists>y. (case pt of (ppa_m, capex_m, debt) \<Rightarrow>
      sens_point cfg_one_year proj_sunny (fin_equity\<lparr>debt_pct := b\<rparr>) ppa_m capex_m debt) = Inr y"
    unfolding eq by simp
qed

text \<open>The two loss-making projects fail at the first grid point.\<close>

lemma loss_first_point:
  "sens_point cfg_one_year proj_loss fin_equity (90 / 100) (90 / 100) 0 = Inl ZeroDivisionError"
  by (rule sens_point_one_year_fails [where loan = "[\<lparr>le_year = 1, le_payment = 0,
        le_interest = 0, le_principal = 0, le_balance = 0\<rparr>]"])
    (simp_all add: proj_loss_def fin_equity_def cfg_one_year_def cfg_default_def
      loan_schedule_one_year after_tax_cf_at_def revenue_at_def opex_at_def
      debt_service_at_def Let_def)

lemma loss2_first_point:
  "sens_point cfg_one_year proj_loss2 fin_equity (90 / 100) (90 / 100) 0 = Inl ZeroDivisionError"
  by (rule sens_point_one_year_fails [where loan = "[\<lparr>le_year = 1, le_payment = 0,
        le_interest = 0, le_principal = 0, le_balance = 0\<rparr>]"])
    (simp_all add: proj_loss2_def fin_equity_def cfg_one_year_def cfg_default_def
      loan_schedule_one_year after_tax_cf_at_def revenue_at_def opex_at_def
      debt_service_at_def Let_def)

lemma first_point_fails:
  assumes "sens_point cfg proj fin (90 / 100) (90 / 100) (max 0 (debt_pct fin - 10 / 100)) = Inl e"
  shows "run_sensitivity cfg (Some proj) (Some fin) = Inl e"
proof -
  obtain rest where "sens_grid (debt_pct fin)
      = (90 / 100, 90 / 100, max 0 (debt_pct fin - 10 / 100)) # rest"
    using sens_grid_first by blast
  with assms show ?thesis
    by (simp add: run_sensitivity_collect)
qed

lemma valid_examples:
  "valid_project proj_sunny" "valid_project proj_loss" "valid_project proj_loss2"
  "valid_config cfg_one_year" "valid_config cfg_default"
  "valid_financing cfg_one_year fin_equity" "valid_financing cfg_one_year fin_all_debt"
  "valid_financing cfg_default fin_sunny"
  by (simp_all add: valid_project_def valid_config_def valid_financing_def proj_sunny_def
        proj_loss_def proj_loss2_def cfg_one_year_def cfg_default_def fin_equity_def
        fin_all_debt_def fin_sunny_def)

lemma sens_grid_start:
  "\<exists>rest. sens_grid b = map (\<lambda>debt. (90 / 100, 90 / 100, debt)) (debt_levels b) @ rest"
  by (simp add: sens_grid_def ppa_mults_def capex_mults_def)

lemma sens_grid_comprehension:
  "sens_grid b = [(ppa_m, capex_m, debt).
      ppa_m \<leftarrow> [90 / 100, 95 / 100, 1, 105 / 100, 110 / 100],
      capex_m \<leftarrow> [90 / 100, 1, 110 / 100],
      debt \<leftarrow> debt_levels b]"
  by (simp add: sens_grid_def ppa_mults_def capex_mults_def)

lemma run_sensitivity_rows:
  assumes "run_sensitivity cfg (Some proj) (Some fin) = Inr rows"
  shows "list_all2 (\<lambda>pt row. (case pt of (ppa_m, capex_m, debt) \<Rightarrow>
            sens_point cfg proj fin ppa_m capex_m debt) = Inr row)
          (sens_grid (debt_pct fin)) rows"
  using assms by (simp add: run_sensitivity_collect collect_Inr_iff)

lemma run_sensitivity_length:
  assumes "run_sensitivity cfg (Some proj) (Some fin) = Inr rows"
  shows "length rows = 45"
  using run_sensitivity_rows [OF assms] by (simp add: list_all2_lengthD [symmetric] sens_grid_length)

lemma loss_later_point:
  "\<exists>row. sens_point cfg_one_year proj_loss fin_equity 1 1 0 = Inr row"
  by (rule sens_point_one_year_ok [where loan = "[\<lparr>le_year = 1, le_payment = 0,
        le_interest = 0, le_principal = 0, le_balance = 0\<rparr>]"])
    (simp_all add: proj_loss_def fin_equity_def cfg_one_year_def cfg_default_def
      loan_schedule_one_year after_tax_cf_at_def revenue_at_def opex_at_def
      debt_service_at_def Let_def)

lemma collect_returns_iff:
  "(\<exists>ys. collect g xs = Inr ys) \<longleftrightarrow> (\<forall>x \<in> set xs. \<not> isl (g x))"
  by (induction xs) (auto split: sum.splits)

subsection \<open>C2\<close>

text \<open>
  C2, as the code has it: \<open>run_sensitivity\<close> has no handler around the evaluation of a
  grid point, so when the evaluation of any one grid point raises, the whole sweep
  raises and returns no rows at all, those already computed included.
\<close>

theorem sweep_aborts_on_point_failure:
  assumes "(ppa_m, capex_m, debt) \<in> set (sens_grid (debt_pct fin))"
    and "sens_point cfg proj fin ppa_m capex_m debt = Inl e"
  shows "\<exists>e'. run_sensitivity cfg (Some proj) (Some fin) = Inl e'"
  unfolding run_sensitivity_collect
  by (rule collect_Inl_member [OF assms(1)]) (simp add: assms(2))

theorem sweep_aborts_on_point_failure_witness:
  "(90 / 100, 90 / 100, 0) \<in> set (sens_grid (debt_pct fin_equity)) \<and>
   sens_point cfg_one_year proj_loss fin_equity (90 / 100) (90 / 100) 0 = Inl ZeroDivisionError \<and>
   (\<exists>e'. run_sensitivity cfg_one_year (Some proj_loss) (Some fin_equity) = Inl e')"
proof -
  have m: "(90 / 100, 90 / 100, 0) \<in> set (sens_grid (debt_pct fin_equity))"
    by (simp add: sens_grid_def ppa_mults_def capex_mults_def debt_levels_def fin_equity_def)
  from sweep_aborts_on_point_failure [OF m loss_first_point] m loss_first_point
  show ?thesis by blast
qed

text \<open>
  C2 as stated fails: a valid project and financing whose first grid point raises. Its
  series there is \<open>[-90000, 48600]\<close>, and from the guess \<open>0.08\<close> the first Newton step of
  \<open>irr\<close> is \<open>0.08 - (-45000) / (-41666.66...) = -1\<close> (in doubles \<open>-1.0\<close> as well), so
  the second pass divides by \<open>(1 + r) ** 1 = 0\<close>. The sweep raises, although the grid
  point with all multipliers \<open>1\<close> would have returned a row.
\<close>

theorem sweep_isolation_counterexample:
  "valid_project proj_loss \<and> valid_config cfg_one_year \<and> valid_financing cfg_one_year fin_equity \<and>
   run_sensitivity cfg_one_year (Some proj_loss) (Some fin_equity) = Inl ZeroDivisionError \<and>
   \<not> isl (sens_point cfg_one_year proj_loss fin_equity 1 1 0)"
proof -
  have "max 0 (debt_pct fin_equity - 10 / 100) = 0" by (simp add: fin_equity_def)
  then have "sens_point cfg_one_year proj_loss fin_equity (90 / 100) (90 / 100)
      (max 0 (debt_pct fin_equity - 10 / 100)) = Inl ZeroDivisionError"
    by (simp only: loss_first_point)
  then have "run_sensitivity cfg_one_year (Some proj_loss) (Some fin_equity) = Inl ZeroDivisionError"
    by (rule first_point_fails)
  moreover have "\<not> isl (sens_point cfg_one_year proj_loss fin_equity 1 1 0)"
    using loss_later_point by auto
  ultimately show ?thesis by (simp add: valid_examples)
qed

subsection \<open>C4\<close>

text \<open>
  C4, as the code has it: for a base \<open>debt_pct\<close> in \<open>[0, 1]\<close> every emitted row has its
  debt level in \<open>[0, max(0.95, base)]\<close>, hence in \<open>[0, 0.95]\<close> whenever the base is at
  most \<open>0.95\<close>: the lower level is floored at \<open>0\<close> and the upper one capped at \<open>0.95\<close>, the
  base level itself is used as it is.
\<close>

theorem sweep_debt_levels_bounded:
  assumes "0 \<le> debt_pct fin" and "debt_pct fin \<le> 1"
    and "run_sensitivity cfg (Some proj) (Some fin) = Inr rows"
    and "row \<in> set rows"
  shows "0 \<le> row_debt_pct row \<and> row_debt_pct row \<le> max (95 / 100) (debt_pct fin)"
proof -
  from assms(4) have "row_coords row \<in> set (map row_coords rows)" by simp
  then have "(row_ppa_mult row, row_capex_mult row, row_debt_pct row)
      \<in> set (sens_grid (debt_pct fin))"
    by (simp add: run_sensitivity_coords [OF assms(3)] row_coords_def)
  then have "row_debt_pct row \<in> set (debt_levels (debt_pct fin))"
    by (rule sens_grid_debt)
  with assms(1,2) show ?thesis
    by (auto simp: debt_levels_def)
qed

theorem sweep_debt_levels_bounded_witness:
  "0 \<le> debt_pct fin_equity \<and> debt_pct fin_equity \<le> 1 \<and>
   (\<exists>rows. run_sensitivity cfg_one_year (Some proj_sunny) (Some fin_equity) = Inr rows \<and>
      rows \<noteq> [] \<and>
      (\<forall>row \<in> set rows. 0 \<le> row_debt_pct row \<and> row_debt_pct row \<le> 95 / 100))"
proof -
  have b: "0 \<le> debt_pct fin_equity" "debt_pct fin_equity \<le> 1"
    by (simp_all add: fin_equity_def)
  have "fin_equity\<lparr>debt_pct := 0\<rparr> = fin_equity" by (simp add: fin_equity_def)
  with sunny_sweep_ok [of 0] obtain rows where
    rows: "run_sensitivity cfg_one_year (Some proj_sunny) (Some fin_equity) = Inr rows"
    by auto
  have "rows \<noteq> []" using run_sensitivity_length [OF rows] by auto
  moreover have "\<forall>row \<in> set rows. 0 \<le> row_debt_pct row \<and> row_debt_pct row \<le> 95 / 100"
    using sweep_debt_levels_bounded [OF b rows] by (simp add: fin_equity_def)
  ultimately show ?thesis using b rows by blast
qed

text \<open>
  C4 as stated fails at the base \<open>debt_pct = 1\<close>: the sweep returns, and its second row
  carries the debt level \<open>1\<close>.
\<close>

theorem sweep_debt_levels_counterexample:
  "0 \<le> debt_pct fin_all_debt \<and> debt_pct fin_all_debt \<le> 1 \<and>
   \<not> isl (run_sensitivity cfg_one_year (Some proj_sunny) (Some fin_all_debt)) \<and>
   row_debt_pct (projr (run_sensitivity cfg_one_year (Some proj_sunny) (Some fin_all_debt)) ! 1) = 1 \<and>
   \<not> row_debt_pct (projr (run_sensitivity cfg_one_year (Some proj_sunny) (Some fin_all_debt)) ! 1)
       \<le> 95 / 100"
proof -
  from sunny_sweep_ok [of 1] obtain rows where
    rows: "run_sensitivity cfg_one_year (Some proj_sunny) (Some fin_all_debt) = Inr rows"
    by (auto simp: fin_all_debt_def)
  have len: "length rows = 45" by (rule run_sensitivity_length [OF rows])
  have "map row_coords rows ! 1 = sens_grid (debt_pct fin_all_debt) ! 1"
    by (simp only: run_sensitivity_coords [OF rows])
  also have "\<dots> = (90 / 100, 90 / 100, 1)"
    by (simp add: sens_grid_def ppa_mults_def capex_mults_def debt_levels_def
          fin_all_debt_def fin_equity_def)
  finally have "row_debt_pct (rows ! 1) = 1"
    using len by (simp add: row_coords_def)
  with rows show ?thesis
    by (simp add: fin_all_debt_def fin_equity_def)
qed

subsection \<open>C5\<close>

text \<open>
  C5, as the code has it: the sweep returns exactly when no grid point's evaluation
  raises, and it then returns exactly 45 rows, one per grid point, in the order of the
  loops: the PPA multiplier outermost, the capex multiplier in the middle, the debt
  level innermost. When the evaluation of a grid point raises, the sweep raises and
  there are no rows.
\<close>

theorem sweep_rows_in_loop_order:
  "((\<exists>rows. run_sensitivity cfg (Some proj) (Some fin) = Inr rows) \<longleftrightarrow>
      (\<forall>(ppa_m, capex_m, debt) \<in> set (sens_grid (debt_pct fin)).
          \<not> isl (sens_point cfg proj fin ppa_m capex_m debt))) \<and>
   (run_sensitivity cfg (Some proj) (Some fin) = Inr rows \<longrightarrow>
      length rows = 45 \<and>
      map row_coords rows = [(ppa_m, capex_m, debt).
        ppa_m \<leftarrow> [90 / 100, 95 / 100, 1, 105 / 100, 110 / 100],
        capex_m \<leftarrow> [90 / 100, 1, 110 / 100],
        debt \<leftarrow> debt_levels (debt_pct fin)] \<and>
      list_all2 (\<lambda>pt row. (case pt of (ppa_m, capex_m, debt) \<Rightarrow>
              sens_point cfg proj fin ppa_m capex_m debt) = Inr row)
        (sens_grid (debt_pct fin)) rows)"
proof (intro conjI impI)
  show "(\<exists>rows. run_sensitivity cfg (Some proj) (Some fin) = Inr rows) \<longleftrightarrow>
      (\<forall>(ppa_m, capex_m, debt) \<in> set (sens_grid (debt_pct fin)).
          \<not> isl (sens_point cfg proj fin ppa_m capex_m debt))"
    unfolding run_sensitivity_collect collect_returns_iff by auto
next
  assume rows: "run_sensitivity cfg (Some proj) (Some fin) = Inr rows"
  show "length rows = 45" by (rule run_sensitivity_length [OF rows])
  show "map row_coords rows = [(ppa_m, capex_m, debt).
        ppa_m \<leftarrow> [90 / 100, 95 / 100, 1, 105 / 100, 110 / 100],
        capex_m \<leftarrow> [90 / 100, 1, 110 / 100],
        debt \<leftarrow> debt_levels (debt_pct fin)]"
    using run_sensitivity_coords [OF rows] by (simp only: sens_grid_comprehension)
  show "list_all2 (\<lambda>pt row. (case pt of (ppa_m, capex_m, debt) \<Rightarrow>
              sens_point cfg proj fin ppa_m capex_m debt) = Inr row)
        (sens_grid (debt_pct fin)) rows"
    by (rule run_sensitivity_rows [OF rows])
qed

theorem sweep_rows_in_loop_order_witness:
  "\<exists>rows. run_sensitivity cfg_one_year (Some proj_sunny) (Some fin_equity) = Inr rows \<and>
     length rows = 45 \<and>
     map row_coords rows = [(ppa_m, capex_m, debt).
       ppa_m \<leftarrow> [90 / 100, 95 / 100, 1, 105 / 100, 110 / 100],
       capex_m \<leftarrow> [90 / 100, 1, 110 / 100],
       debt \<leftarrow> [0, 0, 10 / 100]]"
proof -
  have "fin_equity\<lparr>debt_pct := 0\<rparr> = fin_equity" by (simp add: fin_equity_def)
  with sunny_sweep_ok [of 0] obtain rows where
    rows: "run_sensitivity cfg_one_year (Some proj_sunny) (Some fin_equity) = Inr rows"
    by auto
  have "debt_levels (debt_pct fin_equity) = [0, 0, 10 / 100]"
    by (simp add: debt_levels_def fin_equity_def)
  with sweep_rows_in_loop_order [of cfg_one_year proj_sunny fin_equity rows] rows show ?thesis
    by (intro exI [of _ rows]) simp
qed

text \<open>
  C5 as stated fails: a valid project and financing for which the sweep produces no
  rows, the evaluation of its first grid point raising (its series there is
  \<open>[-180000, 97200]\<close>, and the first Newton step of \<open>irr\<close> lands on the rate \<open>-1\<close>, in
  doubles as well).
\<close>

theorem sweep_row_count_counterexample:
  "valid_project proj_loss2 \<and> valid_config cfg_one_year \<and> valid_financing cfg_one_year fin_equity \<and>
   run_sensitivity cfg_one_year (Some proj_loss2) (Some fin_equity) = Inl ZeroDivisionError"
proof -
  have "max 0 (debt_pct fin_equity - 10 / 100) = 0" by (simp add: fin_equity_def)
  then have "sens_point cfg_one_year proj_loss2 fin_equity (90 / 100) (90 / 100)
      (max 0 (debt_pct fin_equity - 10 / 100)) = Inl ZeroDivisionError"
    by (simp only: loss2_first_point)
  then have "run_sensitivity cfg_one_year (Some proj_loss2) (Some fin_equity) = Inl ZeroDivisionError"
    by (rule first_point_fails)
  then show ?thesis by (simp add: valid_examples)
qed

subsection \<open>C10\<close>

text \<open>
  C10: at the base \<open>debt_pct = 0\<close> the lower and the base level coincide, at the base
  \<open>0.95\<close> the base and the upper level do; the 45 rows the sweep then returns carry
  repeated coordinates \<open>(ppa_mult, capex_mult, debt_pct)\<close>.
\<close>

theorem sweep_grid_points_repeat:
  assumes "debt_pct fin = 0 \<or> debt_pct fin = 95 / 100"
    and "run_sensitivity cfg (Some proj) (Some fin) = Inr rows"
  shows "length rows = 45 \<and> \<not> distinct (map row_coords rows)"
proof -
  from assms(1) have "\<not> distinct (debt_levels (debt_pct fin))"
    by (auto simp: debt_levels_def)
  then have "\<not> distinct (map (\<lambda>debt. (90 / 100 :: real, 90 / 100 :: real, debt))
      (debt_levels (debt_pct fin)))"
    by (simp add: distinct_map)
  moreover obtain rest where "sens_grid (debt_pct fin)
      = map (\<lambda>debt. (90 / 100, 90 / 100, debt)) (debt_levels (debt_pct fin)) @ rest"
    using sens_grid_start by blast
  ultimately have "\<not> distinct (sens_grid (debt_pct fin))"
    by simp
  then show ?thesis
    using run_sensitivity_length [OF assms(2)] run_sensitivity_coords [OF assms(2)] by simp
qed

theorem sweep_grid_points_repeat_witness:
  "(debt_pct fin_equity = 0 \<or> debt_pct fin_equity = 95 / 100) \<and>
   (\<exists>rows. run_sensitivity cfg_one_year (Some proj_sunny) (Some fin_equity) = Inr rows \<and>
      length rows = 45 \<and> \<not> distinct (map row_coords rows))"
proof -
  have b: "debt_pct fin_equity = 0 \<or> debt_pct fin_equity = 95 / 100"
    by (simp add: fin_equity_def)
  have "fin_equity\<lparr>debt_pct := 0\<rparr> = fin_equity" by (simp add: fin_equity_def)
  with sunny_sweep_ok [of 0] obtain rows where
    rows: "run_sensitivity cfg_one_year (Some proj_sunny) (Some fin_equity) = Inr rows"
    by auto
  from sweep_grid_points_repeat [OF b rows] b rows show ?thesis by blast
qed

subsection \<open>C1\<close>

lemma upto_1_2: "[1..2::int] = [1, 2]"
  by (simp add: upto.simps)

lemma loan_equity:
  "loan_schedule (capex proj_two_year * debt_pct fin_equity) (interest_rate fin_equity)
     (term_years fin_equity)
   = Inr [\<lparr>le_year = 1, le_payment = 0, le_interest = 0, le_principal = 0, le_balance = 0\<rparr>]"
  by (simp add: fin_equity_def proj_two_year_def loan_schedule_one_year)

lemma two_year_series:
  "cash_series proj_two_year fin_equity
     [\<lparr>le_year = 1, le_payment = 0, le_interest = 0, le_principal = 0, le_balance = 0\<rparr>]
     (21 / 100) 2 0 = [- 20800, 11664, 11664]"
  by (simp add: cash_series_def Let_def upto_1_2 after_tax_cf_at_def revenue_at_def opex_at_def
      debt_service_at_def proj_two_year_def fin_equity_def)

lemma npv_two_year: "npv (8 / 100) [- 20800, 11664, 11664] = Inr 0"
  by (simp add: npv_def py_div_def py_pow_small power2_eq_square)

lemma d_npv_two_year:
  "d_npv_from (8 / 100) 0 [- 20800, 11664, 11664] = Inr (- (11664 / (27 / 25) ^ 2)
      - 2 * 11664 / (27 / 25) ^ 3)"
  by (simp add: py_div_def py_pow_small power2_eq_square power3_eq_cube)

lemma irr_two_year: "irr [- 20800, 11664, 11664] = Inr (8 / 100)"
proof -
  have "\<not> isclose0 (- (11664 / (27 / 25) ^ 2) - 2 * 11664 / (27 / 25) ^ 3)"
    by (simp add: isclose0_iff power2_eq_square power3_eq_cube)
  from irr_loop_at_root [OF npv_two_year [unfolded npv_def] d_npv_two_year this, of "1 / 10 ^ 6" 199]
  show ?thesis
    unfolding irr_def irr_with_def by simp
qed

lemma year_loop_two_year: "year_loop proj_two_year 0 2 = Inr ()"
  by (simp add: year_loop_def year_powers_def upto_1_2 py_pow_small proj_two_year_def)

text \<open>
  C1: the payback loop starts its running sum at \<open>0\<close> and walks \<open>series[1:]\<close>, so the
  equity outflow at index 0 is not part of the sum. For the two-year project, a valid
  input, the engine returns payback year 1 (the first operating cash flow is positive),
  while the running sum of the series with the outflow included is \<open>-9136\<close> after year 1
  and first positive, \<open>2528\<close>, after year 2.
\<close>

theorem payback_skips_equity_outflow:
  "valid_project proj_two_year \<and> valid_config cfg_two_year \<and>
   valid_financing cfg_two_year fin_equity \<and>
   compute_project_finance proj_two_year fin_equity (cfg_discount_rate cfg_two_year)
     (cfg_tax_rate cfg_two_year) (cfg_project_life_years cfg_two_year)
     (cfg_opex_escalation cfg_two_year)
     = Inr \<lparr>pf_irr = 8 / 100, pf_npv = 0, pf_payback_year = Some 1, pf_min_dscr = None\<rparr> \<and>
   cash_series proj_two_year fin_equity
     [\<lparr>le_year = 1, le_payment = 0, le_interest = 0, le_principal = 0, le_balance = 0\<rparr>]
     (21 / 100) 2 0 = [- 20800, 11664, 11664] \<and>
   payback_spec [- 20800, 11664, 11664] = Some 2"
proof -
  have v: "valid_project proj_two_year \<and> valid_config cfg_two_year \<and>
      valid_financing cfg_two_year fin_equity"
    by (simp add: valid_project_def valid_config_def valid_financing_def proj_two_year_def
        cfg_two_year_def fin_equity_def)
  have d: "dscr_from (map (revenue_at proj_two_year) [1..2])
      (map (opex_at proj_two_year 0) [1..2]) 0
      (map (debt_service_at
        [\<lparr>le_year = 1, le_payment = 0, le_interest = 0, le_principal = 0, le_balance = 0\<rparr>])
        [1..2]) = Inr []"
    by (simp add: upto_1_2 debt_service_at_def)
  have c: "compute_project_finance proj_two_year fin_equity (8 / 100) (21 / 100) 2 0
     = Inr \<lparr>pf_irr = 8 / 100, pf_npv = 0, pf_payback_year = Some 1, pf_min_dscr = None\<rparr>"
    unfolding compute_project_finance_def Let_def loan_equity sum.case year_loop_two_year
      two_year_series irr_two_year npv_two_year d
    by simp
  have s: "payback_spec [- 20800, 11664, 11664] = Some 2"
    by (simp add: payback_spec_def upt_conv_Cons)
  from v c s two_year_series show ?thesis by (simp add: cfg_two_year_def)
qed

subsection \<open>C3\<close>

text \<open>No formula of the engine raises ValueError: that is what a missing row raises.\<close>

lemma py_div_error: "py_div a b \<noteq> Inl ValueError"
  by (simp add: py_div_def)

lemma py_pow_error: "py_pow x n \<noteq> Inl ValueError"
  by (simp add: py_pow_def Let_def)

lemma npv_from_error: "npv_from r t cfs \<noteq> Inl ValueError"
  using py_div_error py_pow_error
  by (induction cfs arbitrary: t) (auto split: sum.splits)

lemma d_npv_from_error: "d_npv_from r t cfs \<noteq> Inl ValueError"
  using py_div_error py_pow_error
  by (induction cfs arbitrary: t) (auto split: sum.splits)

lemma irr_loop_error: "irr_loop cfs tol n r \<noteq> Inl ValueError"
proof (induction n arbitrary: r)
  case 0
  show ?case by simp
next
  case (Suc n)
  show ?case
    using Suc [of "r - q" for q] npv_from_error [of r 0 cfs] d_npv_from_error [of r 0 cfs]
      py_div_error
    by (auto simp: Let_def split: sum.splits)
qed

lemma loan_schedule_error: "loan_schedule amount rate term \<noteq> Inl ValueError"
  using py_div_error py_pow_error
  by (auto simp: loan_schedule_def split: sum.splits)

lemma year_loop_error: "year_loop proj opex_escalation years \<noteq> Inl ValueError"
proof -
  have "for_each (\<lambda>year u. year_powers proj opex_escalation year) ys s \<noteq> Inl ValueError"
    for ys s
    using py_pow_error
    by (induction ys arbitrary: s) (auto simp: year_powers_def split: sum.splits)
  then show ?thesis by (simp add: year_loop_def)
qed

lemma compute_project_finance_error:
  "compute_project_finance proj fin discount_rate tax_rate years opex_escalation
     \<noteq> Inl ValueError"
proof -
  have "dscr_from revenues opex_list k dss \<noteq> Inl e" for revenues opex_list k dss e
    using dscr_from_ok [of revenues opex_list k dss] by auto
  then show ?thesis
    using loan_schedule_error year_loop_error irr_loop_error npv_from_error
    unfolding compute_project_finance_def Let_def irr_def irr_with_def npv_def
    by (auto split: sum.splits)
qed

lemma loan_schedule_zero_term: "loan_schedule amount rate 0 = Inl ZeroDivisionError"
  by (simp add: loan_schedule_def py_pow_0 py_div_def)

lemma irr_single: "irr [a] = Inr (8 / 100)"
proof -
  have "irr_loop [a] tol (Suc n) (8 / 100) = Inr (8 / 100)" for tol n
    by (simp add: py_pow_small py_div_def isclose0_iff)
  from this [of _ 199] show ?thesis
    unfolding irr_def irr_with_def by simp
qed

lemma npv_single: "npv discount_rate [a] = Inr a"
  by (simp add: npv_def py_pow_0 py_div_def)

text \<open>The engine over one year, whatever the debt share.\<close>

lemma compute_one_year_ok:
  assumes "1 + discount_rate \<noteq> 0" "\<bar>1 + discount_rate\<bar> \<le> 2"
    and "loan_schedule (capex proj * debt_pct fin) (interest_rate fin) (term_years fin) = Inr loan"
    and "(capex proj - capex proj * debt_pct fin)
           / after_tax_cf_at proj loan tax_rate 1 opex_escalation 1 * (108 / 100) < 2"
    and "0 \<le> (capex proj - capex proj * debt_pct fin)
           / after_tax_cf_at proj loan tax_rate 1 opex_escalation 1"
  shows "\<exists>res. compute_project_finance proj fin discount_rate tax_rate 1 opex_escalation
           = Inr res"
proof -
  obtain x where
    x: "irr (cash_series proj fin loan tax_rate 1 opex_escalation) = Inr x"
    unfolding cash_series_one_year using irr_two_ok [OF assms(5) assms(4)] by auto
  have "\<bar>1 + discount_rate\<bar> \<le> 2 ^ 1" using assms(2) by simp
  also have "\<dots> \<le> (2 :: real) ^ 500" by (intro power_increasing) simp_all
  finally have "\<exists>v. npv discount_rate (cash_series proj fin loan tax_rate 1 opex_escalation)
      = Inr v"
    unfolding cash_series_one_year npv_def using assms(1)
    by (simp del: npv_from.simps add: npv_from_two)
  then obtain v where
    v: "npv discount_rate (cash_series proj fin loan tax_rate 1 opex_escalation) = Inr v" ..
  from compute_project_finance_ok [OF assms(3) year_loop_one x v]
  show ?thesis by blast
qed

text \<open>
  C3, as the code has it: the engine validates nothing and clamps nothing. It never
  fails with a validation failure: what it raises is raised by its arithmetic
  (ZeroDivisionError, OverflowError), and whenever the payment formula, the yearly
  powers, \<open>irr\<close> and \<open>npv\<close> compute, it returns a numeric result, whatever the values of
  \<open>project_life_years\<close>, \<open>term_years\<close> and \<open>debt_pct\<close>. With \<open>term_years = 0\<close> it fails, with
  the ZeroDivisionError of the payment formula. With a non-positive \<open>project_life_years\<close>
  and a payment formula that computes, it returns the result built from the one-element
  series \<open>[-equity]\<close>: the starting guess \<open>0.08\<close> as IRR, \<open>-capex (1 - debt_pct)\<close> as NPV for
  whatever \<open>debt_pct\<close> it is given, no payback year and no DSCR.
\<close>

theorem engine_validates_nothing:
  "compute_project_finance proj fin discount_rate tax_rate years opex_escalation
     \<noteq> Inl ValueError \<and>
   (term_years fin = 0 \<longrightarrow>
      compute_project_finance proj fin discount_rate tax_rate years opex_escalation
        = Inl ZeroDivisionError) \<and>
   (years \<le> 0 \<and>
    loan_schedule (capex proj * debt_pct fin) (interest_rate fin) (term_years fin) = Inr loan
    \<longrightarrow>
      compute_project_finance proj fin discount_rate tax_rate years opex_escalation
        = Inr \<lparr>pf_irr = 8 / 100, pf_npv = - (capex proj - capex proj * debt_pct fin),
               pf_payback_year = None, pf_min_dscr = None\<rparr>) \<and>
   (loan_schedule (capex proj * debt_pct fin) (interest_rate fin) (term_years fin) = Inr loan \<and>
    year_loop proj opex_escalation years = Inr u \<and>
    irr (cash_series proj fin loan tax_rate years opex_escalation) = Inr i \<and>
    npv discount_rate (cash_series proj fin loan tax_rate years opex_escalation) = Inr v
    \<longrightarrow>
      (\<exists>res. compute_project_finance proj fin discount_rate tax_rate years opex_escalation
          = Inr res \<and> pf_irr res = i \<and> pf_npv res = v))"
proof (intro conjI impI)
  show "compute_project_finance proj fin discount_rate tax_rate years opex_escalation
     \<noteq> Inl ValueError"
    by (rule compute_project_finance_error)
next
  assume "term_years fin = 0"
  then show "compute_project_finance proj fin discount_rate tax_rate years opex_escalation
      = Inl ZeroDivisionError"
    by (simp add: compute_project_finance_def loan_schedule_zero_term)
next
  assume a: "years \<le> 0 \<and>
    loan_schedule (capex proj * debt_pct fin) (interest_rate fin) (term_years fin) = Inr loan"
  then have loan:
    "loan_schedule (capex proj * debt_pct fin) (interest_rate fin) (term_years fin) = Inr loan"
    by simp
  from a have years: "[1..years] = []" by simp
  from a have loop: "year_loop proj opex_escalation years = Inr ()"
    by (simp add: year_loop_none)
  show "compute_project_finance proj fin discount_rate tax_rate years opex_escalation
      = Inr \<lparr>pf_irr = 8 / 100, pf_npv = - (capex proj - capex proj * debt_pct fin),
             pf_payback_year = None, pf_min_dscr = None\<rparr>"
    unfolding compute_project_finance_def Let_def loan sum.case loop cash_series_def years
    by (simp add: irr_single npv_single)
next
  assume "loan_schedule (capex proj * debt_pct fin) (interest_rate fin) (term_years fin)
      = Inr loan \<and>
    year_loop proj opex_escalation years = Inr u \<and>
    irr (cash_series proj fin loan tax_rate years opex_escalation) = Inr i \<and>
    npv discount_rate (cash_series proj fin loan tax_rate years opex_escalation) = Inr v"
  then show "\<exists>res. compute_project_finance proj fin discount_rate tax_rate years opex_escalation
          = Inr res \<and> pf_irr res = i \<and> pf_npv res = v"
    using compute_project_finance_ok by blast
qed

theorem engine_validates_nothing_witness:
  "term_years fin_no_term = 0 \<and>
   compute_project_finance proj_sunny fin_no_term (8 / 100) (21 / 100) 25 (2 / 100)
     = Inl ZeroDivisionError \<and>
   (- 3 :: int) \<le> 0 \<and>
   \<not> isl (loan_schedule (capex proj_sunny * debt_pct fin_overdrawn)
     (interest_rate fin_overdrawn) (term_years fin_overdrawn)) \<and>
   compute_project_finance proj_sunny fin_overdrawn (8 / 100) (21 / 100) (- 3) (2 / 100)
     = Inr \<lparr>pf_irr = 8 / 100, pf_npv = 4500000, pf_payback_year = None, pf_min_dscr = None\<rparr> \<and>
   compute_project_finance proj_sunny fin_overdrawn (8 / 100) (21 / 100) (- 3) (2 / 100)
     \<noteq> Inl ValueError"
proof -
  have t: "term_years fin_no_term = 0" by (simp add: fin_no_term_def)
  let ?loan = "[\<lparr>le_year = 1, le_payment = 4500000 * 2 * (1 + 45 / 1000),
      le_interest = 4500000 * 2 * (45 / 1000),
      le_principal = 4500000 * 2 * (1 + 45 / 1000) - 4500000 * 2 * (45 / 1000),
      le_balance = max (4500000 * 2 - (4500000 * 2 * (1 + 45 / 1000) - 4500000 * 2 * (45 / 1000))) 0\<rparr>]"
  have loan: "loan_schedule (capex proj_sunny * debt_pct fin_overdrawn)
      (interest_rate fin_overdrawn) (term_years fin_overdrawn) = Inr ?loan"
    by (simp add: proj_sunny_def fin_overdrawn_def fin_equity_def loan_schedule_one_year)
  have v: "- (capex proj_sunny - capex proj_sunny * debt_pct fin_overdrawn) = 4500000"
    by (simp add: proj_sunny_def fin_overdrawn_def)
  from engine_validates_nothing [of proj_sunny fin_no_term "8 / 100" "21 / 100" 25 "2 / 100"] t
  have 1: "compute_project_finance proj_sunny fin_no_term (8 / 100) (21 / 100) 25 (2 / 100)
      = Inl ZeroDivisionError" by blast
  from engine_validates_nothing
    [of proj_sunny fin_overdrawn "8 / 100" "21 / 100" "- 3" "2 / 100" ?loan] loan
  have 2: "compute_project_finance proj_sunny fin_overdrawn (8 / 100) (21 / 100) (- 3) (2 / 100)
     = Inr \<lparr>pf_irr = 8 / 100, pf_npv = - (capex proj_sunny - capex proj_sunny * debt_pct fin_overdrawn),
       pf_payback_year = None, pf_min_dscr = None\<rparr>" by simp
  from t loan 1 2 [unfolded v] show ?thesis by simp
qed

text \<open>
  C3 as stated fails: with \<open>project_life_years = 0\<close> the engine returns a result for the
  seeded project, and with \<open>debt_pct = 2\<close> (and a project life of one year) it returns
  one as well.
\<close>

theorem engine_validation_counterexample:
  "\<not> (0 :: int) < 0 \<and>
   compute_project_finance proj_sunny fin_sunny (8 / 100) (21 / 100) 0 (2 / 100)
     = Inr \<lparr>pf_irr = 8 / 100, pf_npv = - 1350000, pf_payback_year = None, pf_min_dscr = None\<rparr> \<and>
   \<not> debt_pct fin_overdrawn \<le> 1 \<and>
   \<not> isl (compute_project_finance proj_sunny fin_overdrawn (8 / 100) (21 / 100) 1 (2 / 100))"
proof -
  have "py_pow (1 + 45 / 1000) 12 = Inr ((1 + 45 / 1000) ^ nat 12)"
    by (rule py_pow_small) simp_all
  moreover have "(1 :: real) < (209 / 200) ^ 12"
    by (rule one_less_power) simp_all
  then have "(209 / 200 :: real) ^ 12 \<noteq> 1" by linarith
  ultimately have "\<exists>loan. loan_schedule (capex proj_sunny * debt_pct fin_sunny) (interest_rate fin_sunny)
      (term_years fin_sunny) = Inr loan"
    by (simp add: loan_schedule_def fin_sunny_def one_plus_rate_def py_div_def)
  then obtain loan where
    loan: "loan_schedule (capex proj_sunny * debt_pct fin_sunny) (interest_rate fin_sunny)
      (term_years fin_sunny) = Inr loan" ..
  have loop: "year_loop proj_sunny (2 / 100) 0 = Inr ()"
    by (simp add: year_loop_none)
  have 1: "compute_project_finance proj_sunny fin_sunny (8 / 100) (21 / 100) 0 (2 / 100)
     = Inr \<lparr>pf_irr = 8 / 100, pf_npv = - 1350000, pf_payback_year = None, pf_min_dscr = None\<rparr>"
    unfolding compute_project_finance_def Let_def loan sum.case loop cash_series_def
    by (simp add: irr_single npv_single proj_sunny_def fin_sunny_def)
  let ?loan = "[\<lparr>le_year = 1, le_payment = 4500000 * 2 * (1 + 45 / 1000),
      le_interest = 4500000 * 2 * (45 / 1000),
      le_principal = 4500000 * 2 * (1 + 45 / 1000) - 4500000 * 2 * (45 / 1000),
      le_balance = max (4500000 * 2 - (4500000 * 2 * (1 + 45 / 1000) - 4500000 * 2 * (45 / 1000))) 0\<rparr>]"
  have loan2: "loan_schedule (capex proj_sunny * debt_pct fin_overdrawn)
      (interest_rate fin_overdrawn) (term_years fin_overdrawn) = Inr ?loan"
    by (simp add: proj_sunny_def fin_overdrawn_def fin_equity_def loan_schedule_one_year)
  have "\<exists>res. compute_project_finance proj_sunny fin_overdrawn (8 / 100) (21 / 100) 1 (2 / 100)
      = Inr res"
    by (rule compute_one_year_ok [OF _ _ loan2])
      (simp_all add: proj_sunny_def fin_overdrawn_def fin_equity_def after_tax_cf_at_def
        revenue_at_def opex_at_def debt_service_at_def Let_def)
  then have 2: "\<not> isl (compute_project_finance proj_sunny fin_overdrawn (8 / 100) (21 / 100) 1 (2 / 100))"
    by auto
  from 1 2 show ?thesis by (simp add: fin_overdrawn_def)
qed

subsection \<open>C7\<close>


lemma loan_rows_payment:
  "e \<in> set (loan_rows payment rate balance years) \<Longrightarrow> le_payment e = payment"
  by (induction years arbitrary: balance) (auto simp: Let_def)




lemma py_pow_Inr: "py_pow x n = Inr v \<Longrightarrow> 0 \<le> n \<Longrightarrow> v = x ^ nat n"
  by (auto simp: py_pow_def Let_def split: if_splits)




subsection \<open>C8\<close>

text \<open>The DSCR loop keeps, in order, the ratios of the entries with a positive debt service.\<close>

lemma dscr_from_eq:
  "dscr_from revenues opex_list i dss =
     Inr (map (\<lambda>k. (revenues ! (i + k) - opex_list ! (i + k)) / dss ! k)
            (filter (\<lambda>k. 0 < dss ! k) [0..<length dss]))"
proof (induction dss arbitrary: i)
  case Nil
  show ?case by simp
next
  case (Cons ds rest)
  have split: "[0..<length (ds # rest)] = 0 # map Suc [0..<length rest]"
    by (simp add: upt_conv_Cons map_Suc_upt del: upt_Suc)
  show ?case
    unfolding split
    by (simp add: Cons.IH [of "Suc i"] py_div_def Let_def filter_map comp_def not_less)
qed

lemma upto_nth: "k < nat years \<Longrightarrow> [1..years] ! k = 1 + int k"
  by (simp add: nth_upto)

lemma upto_length_nat: "length [1..years] = nat years"
  by simp

lemma dscr_values_set:
  assumes "dscr_from (map (revenue_at proj) [1..years])
      (map (opex_at proj opex_escalation) [1..years]) 0
      (map (debt_service_at loan) [1..years]) = Inr dv"
  shows "set dv = dscr_at proj opex_escalation loan ` set (paying_years loan years)"
proof -
  let ?n = "nat years"
  let ?f = "dscr_at proj opex_escalation loan"
  from assms have dv: "dv = map (\<lambda>k. ?f (1 + int k))
      (filter (\<lambda>k. 0 < debt_service_at loan (1 + int k)) [0..<?n])"
    unfolding dscr_from_eq
    by (auto simp: upto_nth dscr_at_def intro!: map_cong filter_cong)
  have "set dv = (\<lambda>k. ?f (1 + int k)) ` {k. k < ?n \<and> 0 < debt_service_at loan (1 + int k)}"
    unfolding dv by auto
  also have "\<dots> = ?f ` {y. 1 \<le> y \<and> y \<le> years \<and> 0 < debt_service_at loan y}"
  proof (intro set_eqI iffI)
    fix v assume "v \<in> (\<lambda>k. ?f (1 + int k)) ` {k. k < ?n \<and> 0 < debt_service_at loan (1 + int k)}"
    then obtain k where k: "k < ?n" "0 < debt_service_at loan (1 + int k)" "v = ?f (1 + int k)"
      by auto
    from k(1) have "1 \<le> 1 + int k" "1 + int k \<le> years" by simp_all
    with k(2,3) show "v \<in> ?f ` {y. 1 \<le> y \<and> y \<le> years \<and> 0 < debt_service_at loan y}"
      by blast
  next
    fix v assume "v \<in> ?f ` {y. 1 \<le> y \<and> y \<le> years \<and> 0 < debt_service_at loan y}"
    then obtain y where y: "1 \<le> y" "y \<le> years" "0 < debt_service_at loan y" "v = ?f y"
      by auto
    from y(1,2) have k: "nat (y - 1) < ?n" "1 + int (nat (y - 1)) = y" by simp_all
    from y(4) k(2) have "v = ?f (1 + int (nat (y - 1)))" by simp
    moreover from y(3) k have
      "nat (y - 1) \<in> {k. k < ?n \<and> 0 < debt_service_at loan (1 + int k)}" by simp
    ultimately show
      "v \<in> (\<lambda>k. ?f (1 + int k)) ` {k. k < ?n \<and> 0 < debt_service_at loan (1 + int k)}"
      by (rule image_eqI)
  qed
  also have "{y. 1 \<le> y \<and> y \<le> years \<and> 0 < debt_service_at loan y}
      = set (paying_years loan years)"
    by (auto simp: paying_years_def)
  finally show ?thesis .
qed

text \<open>Without a principal every payment is zero.\<close>

lemma loan_schedule_no_debt:
  assumes "loan_schedule 0 rate term = Inr loan" "1 \<le> y"
  shows "debt_service_at loan y = 0"
proof -
  from assms(1) obtain payment where "loan = loan_rows payment rate 0 [1..term]" "payment = 0"
    by (auto simp: loan_schedule_def py_div_def split: if_splits sum.splits)
  then have zero: "\<forall>e \<in> set loan. le_payment e = 0"
    by (auto dest: loan_rows_payment)
  show ?thesis
  proof (cases "y \<le> int (length loan)")
    case True
    with assms(2) have "nat (y - 1) < length loan" by simp
    then have "loan ! nat (y - 1) \<in> set loan" by (rule nth_mem)
    with zero True show ?thesis by (simp add: debt_service_at_def)
  next
    case False
    then show ?thesis by (simp add: debt_service_at_def)
  qed
qed

text \<open>
  C8: when the engine returns, its \<open>min_dscr\<close> is \<open>None\<close> exactly when no year of the horizon
  has a positive debt service, which is the case whenever \<open>debt_pct = 0\<close>; otherwise it is
  the minimum, over the years with a positive debt service, of
  \<open>(revenue - opex) / debt_service\<close>, and that is positive when the revenue exceeds the
  opex in each of these years. Only years with a positive debt service enter a
  division, and the DSCR loop raises nothing.
\<close>

theorem min_dscr_characterised:
  assumes "compute_project_finance proj fin discount_rate tax_rate years opex_escalation
      = Inr res"
  shows "\<exists>loan.
     loan_schedule (capex proj * debt_pct fin) (interest_rate fin) (term_years fin) = Inr loan \<and>
     (pf_min_dscr res = None \<longleftrightarrow> paying_years loan years = []) \<and>
     (debt_pct fin = 0 \<longrightarrow> pf_min_dscr res = None) \<and>
     (paying_years loan years \<noteq> [] \<longrightarrow>
        pf_min_dscr res
          = Some (Min (dscr_at proj opex_escalation loan ` set (paying_years loan years)))) \<and>
     (paying_years loan years \<noteq> [] \<and>
      (\<forall>y \<in> set (paying_years loan years).
          opex_at proj opex_escalation y < revenue_at proj y) \<longrightarrow>
        (\<exists>v. pf_min_dscr res = Some v \<and> 0 < v)) \<and>
     (\<forall>revenues opex_list dss. \<not> isl (dscr_from revenues opex_list 0 dss))"
proof -
  from assms obtain loan dv where
    loan: "loan_schedule (capex proj * debt_pct fin) (interest_rate fin) (term_years fin)
      = Inr loan"
    and dv: "dscr_from (map (revenue_at proj) [1..years])
      (map (opex_at proj opex_escalation) [1..years]) 0
      (map (debt_service_at loan) [1..years]) = Inr dv"
    and res: "pf_min_dscr res = (if dv \<noteq> [] then Some (min_list dv) else None)"
    unfolding compute_project_finance_def Let_def
    by (auto split: sum.splits)
  let ?P = "paying_years loan years"
  let ?f = "dscr_at proj opex_escalation loan"
  have set_dv: "set dv = ?f ` set ?P" by (rule dscr_values_set [OF dv])
  then have empty: "dv = [] \<longleftrightarrow> ?P = []"
    by (metis image_is_empty set_empty)
  have none: "pf_min_dscr res = None \<longleftrightarrow> ?P = []"
    unfolding res using empty by simp
  have min: "?P \<noteq> [] \<longrightarrow> pf_min_dscr res = Some (Min (?f ` set ?P))"
  proof
    assume "?P \<noteq> []"
    with empty have "dv \<noteq> []" by simp
    then show "pf_min_dscr res = Some (Min (?f ` set ?P))"
      unfolding res by (simp add: min_list_Min set_dv)
  qed
  have zero: "debt_pct fin = 0 \<longrightarrow> pf_min_dscr res = None"
  proof
    assume "debt_pct fin = 0"
    with loan have "loan_schedule 0 (interest_rate fin) (term_years fin) = Inr loan"
      by simp
    then have "debt_service_at loan y = 0" if "1 \<le> y" for y
      using that by (rule loan_schedule_no_debt)
    then have "?P = []" by (auto simp: paying_years_def filter_empty_conv)
    with none show "pf_min_dscr res = None" by simp
  qed
  have positive: "?P \<noteq> [] \<and>
      (\<forall>y \<in> set ?P. opex_at proj opex_escalation y < revenue_at proj y) \<longrightarrow>
        (\<exists>v. pf_min_dscr res = Some v \<and> 0 < v)"
  proof
    assume hyp: "?P \<noteq> [] \<and>
      (\<forall>y \<in> set ?P. opex_at proj opex_escalation y < revenue_at proj y)"
    show "\<exists>v. pf_min_dscr res = Some v \<and> 0 < v"
    proof -
      have "0 < ?f y" if y: "y \<in> set ?P" for y
      proof -
        from y have "0 < debt_service_at loan y" by (simp add: paying_years_def)
        moreover from y hyp
        have "0 < revenue_at proj y - opex_at proj opex_escalation y" by simp
        ultimately show ?thesis by (simp add: dscr_at_def)
      qed
      moreover have "finite (?f ` set ?P)" "?f ` set ?P \<noteq> {}" using hyp by simp_all
      ultimately have "0 < Min (?f ` set ?P)" by (simp add: Min_gr_iff)
      with min hyp show ?thesis by simp
    qed
  qed
  have total: "\<forall>revenues opex_list dss. \<not> isl (dscr_from revenues opex_list 0 dss)"
    by (simp add: dscr_from_eq)
  show ?thesis
    by (rule exI [of _ loan]) (intro conjI; fact)
qed

theorem min_dscr_characterised_witness:
  "(\<exists>res. compute_project_finance proj_sunny fin_half_debt (8 / 100) (21 / 100) 1 (2 / 100)
        = Inr res \<and>
      pf_min_dscr res = Some (237800 / 2351250)) \<and>
   (\<exists>res. compute_project_finance proj_sunny fin_equity (8 / 100) (21 / 100) 1 (2 / 100)
        = Inr res \<and>
      pf_min_dscr res = None)"
proof -
  let ?loan = "[\<lparr>le_year = 1, le_payment = 2250000 * (1 + 45 / 1000),
      le_interest = 2250000 * (45 / 1000),
      le_principal = 2250000 * (1 + 45 / 1000) - 2250000 * (45 / 1000),
      le_balance = max (2250000 - (2250000 * (1 + 45 / 1000) - 2250000 * (45 / 1000))) 0\<rparr>]"
  have loan: "loan_schedule (capex proj_sunny * debt_pct fin_half_debt)
      (interest_rate fin_half_debt) (term_years fin_half_debt) = Inr ?loan"
    by (simp add: proj_sunny_def fin_half_debt_def fin_equity_def loan_schedule_one_year)
  have "\<exists>res. compute_project_finance proj_sunny fin_half_debt (8 / 100) (21 / 100) 1 (2 / 100)
      = Inr res"
    by (rule compute_one_year_ok [OF _ _ loan])
      (simp_all add: proj_sunny_def fin_half_debt_def fin_equity_def after_tax_cf_at_def
        revenue_at_def opex_at_def debt_service_at_def Let_def)
  then obtain res where
    res: "compute_project_finance proj_sunny fin_half_debt (8 / 100) (21 / 100) 1 (2 / 100)
      = Inr res" ..
  have paying: "paying_years ?loan 1 = [1]"
    by (simp add: paying_years_def debt_service_at_def)
  from min_dscr_characterised [OF res] loan
  have "paying_years ?loan 1 \<noteq> [] \<longrightarrow>
      pf_min_dscr res
        = Some (Min (dscr_at proj_sunny (2 / 100) ?loan ` set (paying_years ?loan 1)))"
    by auto
  then have 1: "pf_min_dscr res = Some (237800 / 2351250)"
    unfolding paying
    by (simp add: dscr_at_def revenue_at_def opex_at_def debt_service_at_def proj_sunny_def)
  let ?none = "[\<lparr>le_year = 1, le_payment = 0, le_interest = 0, le_principal = 0,
      le_balance = 0\<rparr>]"
  have loan0: "loan_schedule (capex proj_sunny * debt_pct fin_equity)
      (interest_rate fin_equity) (term_years fin_equity) = Inr ?none"
    by (simp add: proj_sunny_def fin_equity_def loan_schedule_one_year)
  have "\<exists>res. compute_project_finance proj_sunny fin_equity (8 / 100) (21 / 100) 1 (2 / 100)
      = Inr res"
    by (rule compute_one_year_ok [OF _ _ loan0])
      (simp_all add: proj_sunny_def fin_equity_def after_tax_cf_at_def
        revenue_at_def opex_at_def debt_service_at_def Let_def)
  then obtain res0 where
    res0: "compute_project_finance proj_sunny fin_equity (8 / 100) (21 / 100) 1 (2 / 100)
      = Inr res0" ..
  from min_dscr_characterised [OF res0]
  have 2: "pf_min_dscr res0 = None"
    by (auto simp: fin_equity_def)
  from res 1 res0 2 show ?thesis by blast
qed

subsection \<open>C6\<close>

text \<open>When the sums of \<open>npv\<close> and \<open>irr\<close> compute, they are the plain sums.\<close>

lemma npv_from_Inr:
  "npv_from r t cfs = Inr v \<Longrightarrow> v = (\<Sum>i<length cfs. cfs ! i / (1 + r) ^ (t + i))"
proof (induction cfs arbitrary: t v)
  case Nil
  then show ?case by simp
next
  case (Cons cf cfs)
  from Cons.prems obtain p x s where
    p: "py_pow (1 + r) (int t) = Inr p" and x: "py_div cf p = Inr x"
    and s: "npv_from r (Suc t) cfs = Inr s" and v: "v = x + s"
    by (auto split: sum.splits)
  from p have "p = (1 + r) ^ nat (int t)" by (rule py_pow_Inr) simp
  with x have x': "x = cf / (1 + r) ^ t" by (auto simp: py_div_def split: if_splits)
  from Cons.IH [OF s] have "s = (\<Sum>i<length cfs. cfs ! i / (1 + r) ^ (t + Suc i))" by simp
  with v x' show ?case
    by (simp add: sum.lessThan_Suc_shift del: sum.lessThan_Suc)
qed

lemma d_npv_from_Inr:
  "d_npv_from r t cfs = Inr v \<Longrightarrow>
     v = (\<Sum>i<length cfs. - real (t + i) * cfs ! i / (1 + r) ^ (t + i + 1))"
proof (induction cfs arbitrary: t v)
  case Nil
  then show ?case by simp
next
  case (Cons cf cfs)
  from Cons.prems obtain p x s where
    p: "py_pow (1 + r) (int t + 1) = Inr p" and x: "py_div (- real t * cf) p = Inr x"
    and s: "d_npv_from r (Suc t) cfs = Inr s" and v: "v = x + s"
    by (auto split: sum.splits)
  from p have "p = (1 + r) ^ nat (int t + 1)" by (rule py_pow_Inr) simp
  then have "p = (1 + r) ^ (t + 1)" by (simp add: nat_add_distrib)
  with x have x': "x = - real t * cf / (1 + r) ^ (t + 1)"
    by (auto simp: py_div_def split: if_splits)
  have shift: "(\<Sum>i<length cfs. - real (Suc t + i) * cfs ! i / (1 + r) ^ (Suc t + i + 1))
      = (\<Sum>i<length cfs. - real (t + Suc i) * cfs ! i / (1 + r) ^ (t + Suc i + 1))"
    by simp
  from Cons.IH [OF s]
  have "v = - real t * cf / (1 + r) ^ (t + 1)
          + (\<Sum>i<length cfs. - real (Suc t + i) * cfs ! i / (1 + r) ^ (Suc t + i + 1))"
    using v x' by simp
  also have "\<dots> = (\<Sum>i<length (cf # cfs).
      - real (t + i) * (cf # cfs) ! i / (1 + r) ^ (t + i + 1))"
    unfolding shift
    by (simp only: length_Cons sum.lessThan_Suc_shift nth_Cons_0 nth_Cons_Suc
          add_0_right Nat.add_0_right)
  finally show ?case .
qed

lemma pass_values:
  assumes "npv_from r 0 cfs = Inr v" "d_npv_from r 0 cfs = Inr d"
  shows "v = npv_sum r cfs" "d = d_npv_sum r cfs"
  using npv_from_Inr [OF assms(1)] d_npv_from_Inr [OF assms(2)]
  by (simp_all add: npv_sum_def d_npv_sum_def)

lemma pass_unfold:
  assumes "npv_from r 0 cfs = Inr v" "d_npv_from r 0 cfs = Inr d"
  shows "irr_loop cfs tol (Suc n) r =
      (if isclose0 d then Inr r
       else if \<bar>(r - v / d) - r\<bar> < tol then Inr (r - v / d)
       else irr_loop cfs tol n (r - v / d))"
    and "newton_spec cfs tol (Suc n) r =
      (if isclose0 d then r
       else if \<bar>(r - v / d) - r\<bar> < tol then r - v / d
       else newton_spec cfs tol n (r - v / d))"
    and "newton_trace cfs tol (Suc n) r =
      r # (if isclose0 d then []
           else if \<bar>(r - v / d) - r\<bar> < tol then []
           else newton_trace cfs tol n (r - v / d))"
proof -
  note vals = pass_values [OF assms]
  have d0: "d \<noteq> 0" if "\<not> isclose0 d"
    using that by (auto simp: isclose0_iff)
  show "irr_loop cfs tol (Suc n) r =
      (if isclose0 d then Inr r
       else if \<bar>(r - v / d) - r\<bar> < tol then Inr (r - v / d)
       else irr_loop cfs tol n (r - v / d))"
    using assms d0 by (simp add: py_div_def Let_def)
  show "newton_spec cfs tol (Suc n) r =
      (if isclose0 d then r
       else if \<bar>(r - v / d) - r\<bar> < tol then r - v / d
       else newton_spec cfs tol n (r - v / d))"
    using vals by (simp add: isclose0_iff Let_def)
  show "newton_trace cfs tol (Suc n) r =
      r # (if isclose0 d then []
           else if \<bar>(r - v / d) - r\<bar> < tol then []
           else newton_trace cfs tol n (r - v / d))"
    using vals by (simp add: isclose0_iff Let_def)
qed

lemma irr_loop_spec:
  "irr_loop cfs tol n r = Inr x \<Longrightarrow> x = newton_spec cfs tol n r"
proof (induction n arbitrary: r)
  case 0
  then show ?case by simp
next
  case (Suc n)
  from Suc.prems obtain v d where
    v: "npv_from r 0 cfs = Inr v" and d: "d_npv_from r 0 cfs = Inr d"
    by (auto split: sum.splits)
  define new where "new = r - v / d"
  note unfold = pass_unfold [OF v d, of tol n, folded new_def]
  from Suc.prems Suc.IH [of new] show ?case
    unfolding unfold by (auto split: if_splits)
qed

lemma irr_loop_returns_iff:
  "\<not> isl (irr_loop cfs tol n r) \<longleftrightarrow>
     (\<forall>\<rho> \<in> set (newton_trace cfs tol n r). pass_computes \<rho> cfs)"
proof (induction n arbitrary: r)
  case 0
  show ?case by simp
next
  case (Suc n)
  show ?case
  proof (cases "pass_computes r cfs")
    case False
    then have "isl (irr_loop cfs tol (Suc n) r)"
      by (auto simp: pass_computes_def isl_def split: sum.splits)
    with False show ?thesis by simp
  next
    case True
    then obtain v d where
      v: "npv_from r 0 cfs = Inr v" and d: "d_npv_from r 0 cfs = Inr d"
      unfolding pass_computes_def by (metis sum.collapse(2))
    define new where "new = r - v / d"
    note unfold = pass_unfold [OF v d, of tol n, folded new_def]
    from True Suc.IH [of new] show ?thesis
      unfolding unfold by simp
  qed
qed

lemma newton_trace_length: "length (newton_trace cfs tol n r) \<le> n"
  by (induction n arbitrary: r) (simp_all add: Let_def)

text \<open>
  C6: \<open>irr\<close> is the Newton-Raphson iteration of the specification: from the guess
  \<open>0.08\<close>, with tolerance \<open>1e-6\<close> and at most 200 passes, each at an estimate of the
  iteration. It returns exactly when the two sums of each pass compute, and what it
  returns is the result of the iteration: the current estimate when the slope guard
  stops it, the new estimate when a step is shorter than the tolerance, and the last
  estimate when the passes are used up.
\<close>

theorem irr_is_newton_raphson:
  "(irr cfs = Inr x \<longrightarrow> x = newton_spec cfs (1 / 10 ^ 6) 200 (8 / 100)) \<and>
   (\<not> isl (irr cfs) \<longleftrightarrow>
      (\<forall>r \<in> set (newton_trace cfs (1 / 10 ^ 6) 200 (8 / 100)). pass_computes r cfs)) \<and>
   length (newton_trace cfs (1 / 10 ^ 6) 200 (8 / 100)) \<le> 200"
  unfolding irr_def irr_with_def
  using irr_loop_spec [of cfs "1 / 10 ^ 6" 200 "8 / 100" x]
    irr_loop_returns_iff [of cfs "1 / 10 ^ 6" 200 "8 / 100"]
    newton_trace_length [of cfs "1 / 10 ^ 6" 200 "8 / 100"]
  by blast

lemma sums_two_year:
  "npv_sum (8 / 100) [- 20800, 11664, 11664] = 0"
  "d_npv_sum (8 / 100) [- 20800, 11664, 11664] = - (11664 / (27 / 25) ^ 2)
      - 2 * 11664 / (27 / 25) ^ 3"
  using pass_values [OF npv_two_year [unfolded npv_def] d_npv_two_year] by simp_all

lemma trace_two_year:
  "newton_trace [- 20800, 11664, 11664] (1 / 10 ^ 6) 200 (8 / 100) = [8 / 100]"
proof -
  have "\<not> \<bar>- (11664 / (27 / 25) ^ 2) - 2 * 11664 / (27 / 25) ^ 3 :: real\<bar> \<le> 1 / 10 ^ 12"
    by (simp add: power2_eq_square power3_eq_cube)
  then have "newton_trace [- 20800, 11664, 11664] (1 / 10 ^ 6) (Suc n) (8 / 100) = [8 / 100]"
    for n
    by (simp only: newton_trace.simps sums_two_year Let_def) simp
  from this [of 199] show ?thesis by simp
qed

lemma sums_loss:
  "npv_sum r [- 90000, 48600] = - 90000 + 48600 / (1 + r)"
  "d_npv_sum r [- 90000, 48600] = - 48600 / (1 + r) ^ 2"
  by (simp_all add: npv_sum_def d_npv_sum_def power2_eq_square)

lemma trace_loss:
  "newton_trace [- 90000, 48600] (1 / 10 ^ 6) 200 (8 / 100) = [8 / 100, - 1]"
proof -
  have "newton_trace [- 90000, 48600] (1 / 10 ^ 6) (Suc (Suc n)) (8 / 100) = [8 / 100, - 1]"
    for n
    by (simp add: sums_loss Let_def power2_eq_square)
  from this [of 198] show ?thesis by simp
qed

theorem irr_is_newton_raphson_witness:
  "irr [- 20800, 11664, 11664] = Inr (8 / 100) \<and>
   newton_spec [- 20800, 11664, 11664] (1 / 10 ^ 6) 200 (8 / 100) = 8 / 100 \<and>
   newton_trace [- 20800, 11664, 11664] (1 / 10 ^ 6) 200 (8 / 100) = [8 / 100] \<and>
   pass_computes (8 / 100) [- 20800, 11664, 11664] \<and>
   irr [- 90000, 48600] = Inl ZeroDivisionError \<and>
   newton_trace [- 90000, 48600] (1 / 10 ^ 6) 200 (8 / 100) = [8 / 100, - 1] \<and>
   \<not> pass_computes (- 1) [- 90000, 48600]"
proof -
  note ret = irr_two_year
  have fails: "irr [- 90000, 48600] = Inl ZeroDivisionError"
    by (rule irr_hits_minus_one) simp_all
  note th = irr_is_newton_raphson [of "[- 20800, 11664, 11664]" "8 / 100"]
  from th ret
  have 1: "newton_spec [- 20800, 11664, 11664] (1 / 10 ^ 6) 200 (8 / 100) = 8 / 100"
    by simp
  have "\<not> isl (irr [- 20800, 11664, 11664])" by (simp add: ret)
  with th have "\<forall>r \<in> set (newton_trace [- 20800, 11664, 11664] (1 / 10 ^ 6) 200 (8 / 100)).
      pass_computes r [- 20800, 11664, 11664]"
    by blast
  then have 2: "pass_computes (8 / 100) [- 20800, 11664, 11664]"
    unfolding trace_two_year by simp
  note th' = irr_is_newton_raphson [of "[- 90000, 48600]" 0]
  have "isl (irr [- 90000, 48600])" by (simp add: fails)
  with th' have "\<not> (\<forall>r \<in> set (newton_trace [- 90000, 48600] (1 / 10 ^ 6) 200 (8 / 100)).
      pass_computes r [- 90000, 48600])"
    by blast
  moreover have "pass_computes (8 / 100) [- 90000, 48600]"
    by (simp add: pass_computes_def py_pow_small py_div_def)
  ultimately have 3: "\<not> pass_computes (- 1) [- 90000, 48600]"
    unfolding trace_loss by simp
  from ret 1 2 fails 3 trace_two_year trace_loss show ?thesis by blast
qed

subsection \<open>C9\<close>

text \<open>How a returning \<open>irr\<close> stopped, and what the stop says about the NPV.\<close>

lemma irr_loop_stop:
  assumes "irr_loop cfs tol n r = Inr x"
  shows "(\<exists>\<rho> \<in> set (newton_trace cfs tol n r).
            x = \<rho> \<and> \<bar>d_npv_sum \<rho> cfs\<bar> \<le> 1 / 10 ^ 12 \<or>
            x = \<rho> - npv_sum \<rho> cfs / d_npv_sum \<rho> cfs \<and> \<bar>x - \<rho>\<bar> < tol \<and>
              \<bar>npv_sum \<rho> cfs\<bar> < tol * \<bar>d_npv_sum \<rho> cfs\<bar>) \<or>
         length (newton_trace cfs tol n r) = n"
  using assms
proof (induction n arbitrary: r)
  case 0
  then show ?case by simp
next
  case (Suc n)
  let ?P = "\<lambda>\<rho>. x = \<rho> \<and> \<bar>d_npv_sum \<rho> cfs\<bar> \<le> 1 / 10 ^ 12 \<or>
            x = \<rho> - npv_sum \<rho> cfs / d_npv_sum \<rho> cfs \<and> \<bar>x - \<rho>\<bar> < tol \<and>
              \<bar>npv_sum \<rho> cfs\<bar> < tol * \<bar>d_npv_sum \<rho> cfs\<bar>"
  from Suc.prems obtain v d where
    v: "npv_from r 0 cfs = Inr v" and d: "d_npv_from r 0 cfs = Inr d"
    by (auto split: sum.splits)
  note vals = pass_values [OF v d]
  define new where "new = r - v / d"
  note unfold = pass_unfold [OF v d, of tol n, folded new_def]
  have head: "r \<in> set (newton_trace cfs tol (Suc n) r)"
    unfolding unfold(3) by simp
  show ?case
  proof (cases "isclose0 d")
    case True
    with Suc.prems have "x = r" unfolding unfold(1) by simp
    moreover from True have "\<bar>d_npv_sum r cfs\<bar> \<le> 1 / 10 ^ 12"
      by (simp add: isclose0_iff vals)
    ultimately have "?P r" by blast
    with head show ?thesis by blast
  next
    case False
    then have d0: "d \<noteq> 0" by (auto simp: isclose0_iff)
    show ?thesis
    proof (cases "\<bar>new - r\<bar> < tol")
      case True
      with Suc.prems False have x: "x = new" unfolding unfold(1) by simp
      from True have "\<bar>v / d\<bar> < tol" by (simp add: new_def)
      then have "\<bar>v\<bar> / \<bar>d\<bar> < tol" by (simp only: abs_divide)
      moreover have "0 < \<bar>d\<bar>" using d0 by simp
      ultimately have "\<bar>v\<bar> < tol * \<bar>d\<bar>" by (simp add: pos_divide_less_eq)
      then have res: "\<bar>npv_sum r cfs\<bar> < tol * \<bar>d_npv_sum r cfs\<bar>"
        by (simp only: vals)
      have step: "x = r - npv_sum r cfs / d_npv_sum r cfs"
        unfolding x new_def by (simp only: vals)
      have near: "\<bar>x - r\<bar> < tol" using True by (simp only: x)
      from step near res have "?P r" by blast
      with head show ?thesis by blast
    next
      case far: False
      with Suc.prems False have "irr_loop cfs tol n new = Inr x"
        unfolding unfold(1) by simp
      from Suc.IH [OF this]
      have IH: "(\<exists>\<rho> \<in> set (newton_trace cfs tol n new). ?P \<rho>)
          \<or> length (newton_trace cfs tol n new) = n" .
      have T: "newton_trace cfs tol (Suc n) r = r # newton_trace cfs tol n new"
        using False far unfolding unfold(3) by simp
      from IH show ?thesis
      proof
        assume "\<exists>\<rho> \<in> set (newton_trace cfs tol n new). ?P \<rho>"
        then obtain \<rho> where \<rho>: "\<rho> \<in> set (newton_trace cfs tol n new)" and P: "?P \<rho>"
          by blast
        from \<rho> have "\<rho> \<in> set (newton_trace cfs tol (Suc n) r)" unfolding T by simp
        with P show ?thesis by blast
      next
        assume "length (newton_trace cfs tol n new) = n"
        then have "length (newton_trace cfs tol (Suc n) r) = Suc n" unfolding T by simp
        then show ?thesis by blast
      qed
    qed
  qed
qed

text \<open>
  C9, as the code has it: a rate that \<open>irr\<close> returns is the result of the Newton iteration,
  which stopped in one of three ways. Either the slope guard stopped it at the rate
  returned, or a pass made a step shorter than \<open>1e-6\<close> from an estimate \<open>r\<close> to the rate
  returned, and then \<open>|NPV(r)| < 1e-6 |dNPV/dr (r)|\<close>, a bound relative to the slope at the
  estimate before the last step; or all 200 passes were made. The test of \<open>irr\<close> is on
  the length of the step, not on the NPV, so no absolute bound on the NPV at the rate
  returned follows.
\<close>

theorem irr_residual_at_stop:
  assumes "irr cfs = Inr x"
  shows "x = newton_spec cfs (1 / 10 ^ 6) 200 (8 / 100) \<and>
     ((\<exists>r \<in> set (newton_trace cfs (1 / 10 ^ 6) 200 (8 / 100)).
          x = r \<and> \<bar>d_npv_sum r cfs\<bar> \<le> 1 / 10 ^ 12 \<or>
          x = r - npv_sum r cfs / d_npv_sum r cfs \<and> \<bar>x - r\<bar> < 1 / 10 ^ 6 \<and>
            \<bar>npv_sum r cfs\<bar> < 1 / 10 ^ 6 * \<bar>d_npv_sum r cfs\<bar>) \<or>
      length (newton_trace cfs (1 / 10 ^ 6) 200 (8 / 100)) = 200)"
  using assms irr_loop_spec [of cfs "1 / 10 ^ 6" 200 "8 / 100" x]
    irr_loop_stop [of cfs "1 / 10 ^ 6" 200 "8 / 100" x]
  unfolding irr_def irr_with_def by blast

theorem irr_residual_at_stop_witness:
  "irr [- 20800, 11664, 11664] = Inr (8 / 100) \<and>
   newton_trace [- 20800, 11664, 11664] (1 / 10 ^ 6) 200 (8 / 100) = [8 / 100] \<and>
   \<not> \<bar>d_npv_sum (8 / 100) [- 20800, 11664, 11664]\<bar> \<le> 1 / 10 ^ 12 \<and>
   \<bar>npv_sum (8 / 100) [- 20800, 11664, 11664]\<bar>
     < 1 / 10 ^ 6 * \<bar>d_npv_sum (8 / 100) [- 20800, 11664, 11664]\<bar>"
proof -
  have steep: "\<not> \<bar>d_npv_sum (8 / 100) [- 20800, 11664, 11664]\<bar> \<le> 1 / 10 ^ 12"
    unfolding sums_two_year by (simp add: power2_eq_square power3_eq_cube)
  have short: "length [8 / 100 :: real] \<noteq> 200" by simp
  from irr_residual_at_stop [OF irr_two_year] steep short
  have "\<bar>npv_sum (8 / 100) [- 20800, 11664, 11664]\<bar>
     < 1 / 10 ^ 6 * \<bar>d_npv_sum (8 / 100) [- 20800, 11664, 11664]\<bar>"
    unfolding trace_two_year by simp
  with irr_two_year trace_two_year steep show ?thesis by blast
qed

text \<open>
  C9 as stated fails, in two ways. On \<open>[-1, 1e-13]\<close> the slope at the guess is
  \<open>-1e-13 / 1.08^2\<close>, within the guard, so \<open>irr\<close> returns the guess \<open>0.08\<close>, where the NPV is
  about \<open>-1\<close>. On \<open>[-1000000000, 1080000900]\<close> the first step is \<open>9.0e-7\<close> long, so \<open>irr\<close>
  returns after one pass, at a rate where the NPV is \<open>1250 / 1800003\<close>, about \<open>6.9e-4\<close>.
  Each series changes sign once.
\<close>

theorem irr_round_trip_counterexample:
  "sign_changes [- 1, 1 / 10 ^ 13] = 1 \<and>
   irr [- 1, 1 / 10 ^ 13] = Inr (8 / 100) \<and>
   npv (8 / 100) [- 1, 1 / 10 ^ 13] = Inr (- 1 + 1 / 10 ^ 13 / (108 / 100)) \<and>
   \<not> \<bar>- 1 + 1 / 10 ^ 13 / (108 / 100) :: real\<bar> \<le> 1 / 10 ^ 4 \<and>
   sign_changes [- 1000000000, 1080000900] = 1 \<and>
   irr [- 1000000000, 1080000900] = Inr (8 / 100 + 27 / 30000025) \<and>
   npv (8 / 100 + 27 / 30000025) [- 1000000000, 1080000900] = Inr (1250 / 1800003) \<and>
   \<not> \<bar>1250 / 1800003 :: real\<bar> \<le> 1 / 10 ^ 4"
proof -
  have range: "\<bar>1 + r\<bar> \<le> 2 ^ 500" if "\<bar>1 + r\<bar> \<le> 2" for r :: real
  proof -
    have "\<bar>1 + r\<bar> \<le> 2 ^ 1" using that by simp
    also have "\<dots> \<le> (2 :: real) ^ 500" by (intro power_increasing) simp_all
    finally show ?thesis .
  qed
  have s1: "sign_changes [- 1, 1 / 10 ^ 13] = 1"
    and s2: "sign_changes [- 1000000000, 1080000900] = 1"
    by (simp_all add: sign_changes_def)
  have "irr_loop [- 1, 1 / 10 ^ 13] (1 / 10 ^ 6) (Suc n) (8 / 100) = Inr (8 / 100)" for n
    by (simp del: npv_from.simps d_npv_from.simps
          add: npv_from_two d_npv_from_two range isclose0_iff power2_eq_square)
  from this [of 199] have i1: "irr [- 1, 1 / 10 ^ 13] = Inr (8 / 100)"
    unfolding irr_def irr_with_def by simp
  have n1: "npv (8 / 100) [- 1, 1 / 10 ^ 13] = Inr (- 1 + 1 / 10 ^ 13 / (108 / 100))"
    unfolding npv_def
    by (simp del: npv_from.simps add: npv_from_two range)
  have "irr_loop [- 1000000000, 1080000900] (1 / 10 ^ 6) (Suc n) (8 / 100)
      = Inr (8 / 100 + 27 / 30000025)" for n
    by (simp del: npv_from.simps d_npv_from.simps
          add: npv_from_two d_npv_from_two range isclose0_iff power2_eq_square
            py_div_def Let_def)
  from this [of 199] have i2: "irr [- 1000000000, 1080000900] = Inr (8 / 100 + 27 / 30000025)"
    unfolding irr_def irr_with_def by simp
  have n2: "npv (8 / 100 + 27 / 30000025) [- 1000000000, 1080000900] = Inr (1250 / 1800003)"
    unfolding npv_def
    by (simp del: npv_from.simps add: npv_from_two range)
  from s1 i1 n1 s2 i2 n2 show ?thesis by simp
qed

end
